theory Spec2Isabelle
  imports Complex_Main "HOL-Library.Word"
begin

section \<open>Values of the JavaScript runtime\<close>

text \<open>
  The program is \<^verbatim>\<open>scaffolder.js\<close>, a CommonJS module (not in strict mode) that runs on
  Node.js. A JavaScript string is a finite sequence of 16-bit code units; \<open>js\<close> embeds an
  ASCII literal. File contents are sequences of bytes.
\<close>

type_synonym byte = "8 word"
type_synonym jsstring = "16 word list"

definition js :: "string \<Rightarrow> jsstring" where
  "js s = map (\<lambda>c. of_nat (of_char c)) s"

text \<open>
  \<^verbatim>\<open>String(n)\<close> for an integer, as the template literal \<^verbatim>\<open>${code}\<close> computes it;
  \<^verbatim>\<open>null\<close> prints as \<^verbatim>\<open>null\<close>.
\<close>

fun showNat :: "nat \<Rightarrow> jsstring" where
  "showNat n =
     (if n < 10 then [of_nat (48 + n)] else showNat (n div 10) @ [of_nat (48 + n mod 10)])"

declare showNat.simps [simp del]

definition numberToString :: "int option \<Rightarrow> jsstring" where
  "numberToString code =
     (case code of
        None \<Rightarrow> js ''null''
      | Some i \<Rightarrow> if i < 0 then js ''-'' @ showNat (nat (- i)) else showNat (nat i))"

text \<open>
  Values read from JSON (\<^verbatim>\<open>package.json\<close>, the module's field values). An object is its
  table of own properties; \<open>None\<close> of type \<open>json option\<close> stands for \<^verbatim>\<open>undefined\<close>.
  Numbers are carried as they are; the program does no arithmetic on them.
\<close>

datatype json =
    JNull
  | JBool bool
  | JNum real
  | JStr jsstring
  | JArr "json list"
  | JObj "jsstring \<Rightarrow> json option"

text \<open>
  The own enumerable properties that \<^verbatim>\<open>{...x}\<close> copies: those of an object, the indexed
  elements of an array, the indexed code units of a string, nothing for
  \<^verbatim>\<open>undefined\<close>, \<^verbatim>\<open>null\<close>, booleans and numbers.
\<close>

fun spread :: "json option \<Rightarrow> (jsstring \<rightharpoonup> json)" where
  "spread (Some (JObj m)) = m"
| "spread (Some (JArr xs)) = map_of (zip (map showNat [0..<length xs]) xs)"
| "spread (Some (JStr s)) = map_of (zip (map showNat [0..<length s]) (map (\<lambda>c. JStr [c]) s))"
| "spread _ = Map.empty"

text \<open>What the program throws or rejects with.\<close>

datatype error =
    Error jsstring  \<comment> \<open>\<^verbatim>\<open>new Error(message)\<close>\<close>
  | SyntaxError     \<comment> \<open>thrown by \<^verbatim>\<open>JSON.parse\<close>\<close>
  | TypeError       \<comment> \<open>reading a property of \<^verbatim>\<open>null\<close>\<close>
  | SystemError     \<comment> \<open>thrown by a call of the \<^verbatim>\<open>fs\<close> module\<close>

section \<open>The runtime library\<close>

subsection \<open>Base64\<close>

text \<open>
  \<^verbatim>\<open>fs.readFileSync(path, 'base64')\<close> returns the bytes of the file in the base64 encoding of
  RFC 4648, with padding. Encoder and decoder belong to Node.js, not to the repository, and
  are written out here from the RFC so that the round trip can be stated.
\<close>

definition base64Alphabet :: jsstring where
  "base64Alphabet = js ''ABCDEFGHIJKLMNOPQRSTUVWXYZabcdefghijklmnopqrstuvwxyz0123456789+/''"

definition base64Pad :: "16 word" where
  "base64Pad = 61"

definition base64Char :: "nat \<Rightarrow> 16 word" where
  "base64Char i = base64Alphabet ! i"

fun indexOf :: "'a \<Rightarrow> 'a list \<Rightarrow> nat option" where
  "indexOf x [] = None"
| "indexOf x (y # ys) = (if x = y then Some 0 else map_option Suc (indexOf x ys))"

definition base64Value :: "16 word \<Rightarrow> nat option" where
  "base64Value c = indexOf c base64Alphabet"

fun base64_encode :: "byte list \<Rightarrow> jsstring" where
  "base64_encode [] = []"
| "base64_encode [a] =
     (let n = unat a * 16
      in [base64Char (n div 64), base64Char (n mod 64), base64Pad, base64Pad])"
| "base64_encode [a, b] =
     (let n = (unat a * 256 + unat b) * 4
      in [base64Char (n div 4096), base64Char (n div 64 mod 64), base64Char (n mod 64),
          base64Pad])"
| "base64_encode (a # b # c # rest) =
     (let n = unat a * 65536 + unat b * 256 + unat c
      in [base64Char (n div 262144), base64Char (n div 4096 mod 64),
          base64Char (n div 64 mod 64), base64Char (n mod 64)] @ base64_encode rest)"

fun base64_decode :: "jsstring \<Rightarrow> byte list option" where
  "base64_decode [] = Some []"
| "base64_decode (w # x # y # z # rest) =
     (if rest = [] \<and> z = base64Pad then
        (if y = base64Pad then
           (case (base64Value w, base64Value x) of
              (Some p, Some q) \<Rightarrow> Some [of_nat ((p * 64 + q) div 16)]
            | _ \<Rightarrow> None)
         else
           (case (base64Value w, base64Value x, base64Value y) of
              (Some p, Some q, Some r) \<Rightarrow>
                Some [of_nat (((p * 64 + q) * 64 + r) div 4 div 256),
                      of_nat (((p * 64 + q) * 64 + r) div 4 mod 256)]
            | _ \<Rightarrow> None))
      else
        (case (base64Value w, base64Value x, base64Value y, base64Value z) of
           (Some p, Some q, Some r, Some s) \<Rightarrow>
             map_option
               (\<lambda>bs. of_nat ((((p * 64 + q) * 64 + r) * 64 + s) div 65536)
                    # of_nat ((((p * 64 + q) * 64 + r) * 64 + s) div 256 mod 256)
                    # of_nat ((((p * 64 + q) * 64 + r) * 64 + s) mod 256) # bs)
               (base64_decode rest)
         | _ \<Rightarrow> None))"
| "base64_decode _ = None"

subsection \<open>The regular expression of the snapshotter\<close>

text \<open>
  \<^verbatim>\<open>/\.(png|jpg|jpeg|gif|ico|woff|woff2|ttf|eot)$/i.test(item.name)\<close>: the name ends with a
  dot followed by one of the alternatives. Under the flag \<^verbatim>\<open>i\<close> two code units match when
  their canonical forms (upper case) agree. Every unit of the pattern is ASCII, and the
  runtime never canonicalises a unit outside ASCII to an ASCII one, so only the ASCII
  letters are folded here.
\<close>

definition canonicalize :: "16 word \<Rightarrow> 16 word" where
  "canonicalize c = (if 97 \<le> c \<and> c \<le> 122 then c - 32 else c)"

definition binaryExtensions :: "jsstring list" where
  "binaryExtensions = map js
     [''png'', ''jpg'', ''jpeg'', ''gif'', ''ico'', ''woff'', ''woff2'', ''ttf'', ''eot'']"

definition endsWithIgnoreCase :: "jsstring \<Rightarrow> jsstring \<Rightarrow> bool" where
  "endsWithIgnoreCase s p \<longleftrightarrow>
     length p \<le> length s \<and>
     map canonicalize (drop (length s - length p) s) = map canonicalize p"

definition isBinary :: "jsstring \<Rightarrow> bool" where
  "isBinary name = list_ex (\<lambda>e. endsWithIgnoreCase name (js ''.'' @ e)) binaryExtensions"

section \<open>Files on disk\<close>

text \<open>
  What the program can observe of a directory tree. \<open>File None\<close> is an entry that exists,
  is not a directory and whose read raises (no permission, a link to a directory);
  \<open>Dangling\<close> is a link whose target is missing: \<^verbatim>\<open>fs.readdirSync\<close> lists it, it is
  not a directory, \<^verbatim>\<open>fs.existsSync\<close> is false of it and its read raises;
  \<open>Dir None\<close> is a directory that cannot be listed. The entries of a directory are in the
  order in which \<^verbatim>\<open>fs.readdirSync\<close> returns them.
\<close>

datatype node =
    File "byte list option"
  | Dangling
  | Dir "(jsstring \<times> node) list option"

text \<open>
  The entry \<open>name\<close> of the directory at a path, as \<^verbatim>\<open>fs.existsSync\<close> sees it: \<open>None\<close>
  when there is no such entry or the entry is a dangling link.
\<close>

definition lookupEntry :: "node option \<Rightarrow> jsstring \<Rightarrow> node option" where
  "lookupEntry dir name =
     (case dir of
        Some (Dir (Some items)) \<Rightarrow>
          (case map_of items name of Some Dangling \<Rightarrow> None | found \<Rightarrow> found)
      | _ \<Rightarrow> None)"

fun putEntry :: "jsstring \<Rightarrow> node \<Rightarrow> (jsstring \<times> node) list \<Rightarrow> (jsstring \<times> node) list" where
  "putEntry name n [] = [(name, n)]"
| "putEntry name n ((name', n') # items) =
     (if name' = name then (name, n) # items else (name', n') # putEntry name n items)"

section \<open>What the operations leave behind\<close>

text \<open>
  Lines written with \<^verbatim>\<open>console.warn\<close> and \<^verbatim>\<open>console.error\<close>, and the one
  \<^verbatim>\<open>console.log\<close> line that is the counterpart of a warning. The progress lines of
  \<^verbatim>\<open>console.log\<close> are left out.
\<close>

datatype message =
    CommandFailed jsstring "int option" jsstring jsstring
      \<comment> \<open>description, exit code, captured stdout, captured stderr\<close>
  | CouldNotReadFile jsstring
  | RemovedFile jsstring
  | FileNotFoundForRemoval jsstring
  | PackageJsonNotFound
  | ShadcnInitFailed error
  | CouldNotCleanUp jsstring

text \<open>Calls that act on the world outside the process, in the order they are made.\<close>

datatype action =
    Mkdtemp
  | Spawn jsstring "jsstring list" jsstring  \<comment> \<open>command, arguments, working directory\<close>
  | WriteFile jsstring jsstring              \<comment> \<open>path, data\<close>
  | RmSync jsstring

text \<open>
  The events of a child process that reach the handlers of \<open>runCommand\<close>. Either the
  child closes: the event \<^verbatim>\<open>close\<close> with the exit code (\<^verbatim>\<open>null\<close> after a signal),
  after the texts received on stdout and on stderr. Or the event \<^verbatim>\<open>error\<close> comes first,
  with \<^verbatim>\<open>err.message\<close>, and the event \<^verbatim>\<open>close\<close> follows it, with its code (a
  negative error number when the child could not be spawned) and the texts received.
  The command runs through a shell (\<^verbatim>\<open>shell: true\<close>): an executable that the shell does
  not find is a child that closes with a nonzero exit code, not an \<^verbatim>\<open>error\<close> event.
\<close>

datatype outcome =
    SpawnFailed jsstring "int option" jsstring jsstring
      \<comment> \<open>message of the error; then code, stdout and stderr of the close that follows\<close>
  | Closed "int option" jsstring jsstring
      \<comment> \<open>exit code, stdout, stderr\<close>

text \<open>
  Everything outside the repository that the program depends on: the platform, the
  environment variables, the behaviour of the file system calls that can fail, of the child
  processes, and the codecs of the runtime. A child process may change the project
  directory under the temporary workspace in any way.
\<close>

record runtime =
  win32 :: bool
  env :: "jsstring \<rightharpoonup> jsstring"
  mkdtempSync :: "jsstring option"  \<comment> \<open>the directory created, or \<open>None\<close> when the call throws\<close>
  rmSyncFails :: bool
  writeFileSyncFails :: bool
  spawn :: "jsstring \<Rightarrow> jsstring list \<Rightarrow> jsstring \<Rightarrow> node option \<Rightarrow> outcome \<times> node option"
  utf8_decode :: "byte list \<Rightarrow> jsstring"
  utf8_encode :: "jsstring \<Rightarrow> byte list"
  json_parse :: "jsstring \<Rightarrow> json option"  \<comment> \<open>\<open>None\<close> when \<^verbatim>\<open>JSON.parse\<close> throws\<close>
  json_stringify :: "json \<Rightarrow> jsstring"

text \<open>
  \<^verbatim>\<open>path.join(a, b)\<close> for a directory entry \<open>b\<close>: entry names hold no separator and are
  neither \<^verbatim>\<open>.\<close> nor \<^verbatim>\<open>..\<close>, so the normalisation that \<^verbatim>\<open>path.join\<close> applies changes
  nothing. The separator is that of the platform, a backslash on Windows and a slash
  elsewhere.
\<close>

definition pathSeparator :: "runtime \<Rightarrow> 16 word" where
  "pathSeparator rt = (if win32 rt then 92 else 47)"

definition pathJoin :: "runtime \<Rightarrow> jsstring \<Rightarrow> jsstring \<Rightarrow> jsstring" where
  "pathJoin rt a b = a @ pathSeparator rt # b"

text \<open>
  The state the program acts on: whether the temporary workspace exists, the directory
  \<^verbatim>\<open>project\<close> inside it (\<open>None\<close> when absent), the calls made, the console, and the
  lines that a handler still to run writes to the console after the promise it belongs to
  has been settled.
\<close>

record world =
  tempDirExists :: bool
  project :: "node option"
  trace :: "action list"
  console :: "message list"
  lateConsole :: "message list"

section \<open>The Command Runner\<close>

text \<open>
  \<^verbatim>\<open>runCommand(command, args, workingDir, description)\<close>. The promise is resolved
  (\<open>Inr ()\<close>) or rejected (\<open>Inl\<close>) by the first of the events \<^verbatim>\<open>close\<close> and
  \<^verbatim>\<open>error\<close>. The captured streams go to \<^verbatim>\<open>console.error\<close>; the error that is built
  has the message only. When \<^verbatim>\<open>error\<close> comes first, the handler of the \<^verbatim>\<open>close\<close> that
  follows still runs: its call of \<^verbatim>\<open>reject\<close> has no effect, and what it writes to
  \<^verbatim>\<open>console.error\<close> is written after the promise has been rejected.
\<close>

definition runCommand ::
  "runtime \<Rightarrow> jsstring \<Rightarrow> jsstring list \<Rightarrow> jsstring \<Rightarrow> jsstring \<Rightarrow> world
     \<Rightarrow> (error + unit) \<times> world" where
  "runCommand rt command args workingDir description w =
     (let cmd = (if win32 rt then command @ js ''.cmd'' else command);
          (ended, project') = spawn rt cmd args workingDir (project w);
          w' = w\<lparr>project := project', trace := trace w @ [Spawn cmd args workingDir]\<rparr>
      in case ended of
           Closed code stdout stderr \<Rightarrow>
             if code \<noteq> Some 0 then
               (Inl (Error (description @ js '' failed with exit code '' @ numberToString code)),
                w'\<lparr>console := console w' @ [CommandFailed description code stdout stderr]\<rparr>)
             else (Inr (), w')
         | SpawnFailed message code stdout stderr \<Rightarrow>
             (Inl (Error (js ''Failed to run '' @ command @ js '': '' @ message)),
              if code \<noteq> Some 0 then
                w'\<lparr>lateConsole :=
                     lateConsole w' @ [CommandFailed description code stdout stderr]\<rparr>
              else w'))"

definition runViteCreate ::
  "runtime \<Rightarrow> jsstring \<Rightarrow> jsstring \<Rightarrow> jsstring \<Rightarrow> world \<Rightarrow> (error + unit) \<times> world" where
  "runViteCreate rt workingDir projectName template =
     runCommand rt (js ''npm'')
       [js ''create'', js ''vite@latest'', projectName, js ''--'', js ''--template'', template]
       workingDir (js ''Creating Vite project'')"

section \<open>The Directory Snapshotter\<close>

datatype filetype = Binary | Text

record entry =
  type :: filetype
  content :: jsstring

text \<open>
  The object \<^verbatim>\<open>files\<close>: its own properties and, when the key \<^verbatim>\<open>__proto__\<close> has been
  assigned an entry, that entry as its prototype (an assignment to \<^verbatim>\<open>__proto__\<close> sets the
  prototype and creates no own property). \<^verbatim>\<open>Object.assign\<close> copies own properties
  only; a source built by \<open>setProperty\<close> has no own key \<^verbatim>\<open>__proto__\<close>.
\<close>

record filesobj =
  own :: "jsstring \<rightharpoonup> entry"
  proto :: "entry option"

definition emptyObject :: filesobj where
  "emptyObject = \<lparr>own = Map.empty, proto = None\<rparr>"

definition setProperty :: "filesobj \<Rightarrow> jsstring \<Rightarrow> entry \<Rightarrow> filesobj" where
  "setProperty obj k v =
     (if k = js ''__proto__'' then obj\<lparr>proto := Some v\<rparr>
      else obj\<lparr>own := (own obj)(k \<mapsto> v)\<rparr>)"

definition objectAssign :: "filesobj \<Rightarrow> filesobj \<Rightarrow> filesobj" where
  "objectAssign target source = target\<lparr>own := own target ++ own source\<rparr>"

definition relativePathOf :: "runtime \<Rightarrow> jsstring \<Rightarrow> jsstring \<Rightarrow> jsstring" where
  "relativePathOf rt basePath name =
     (if basePath \<noteq> [] then pathJoin rt basePath name else name)"

text \<open>The body of the \<^verbatim>\<open>try\<close> block, for a file that can be read.\<close>

definition readFileEntry :: "runtime \<Rightarrow> jsstring \<Rightarrow> byte list \<Rightarrow> entry" where
  "readFileEntry rt name bytes =
     (if isBinary name then \<lparr>type = Binary, content = base64_encode bytes\<rparr>
      else \<lparr>type = Text, content = utf8_decode rt bytes\<rparr>)"

text \<open>
  \<^verbatim>\<open>readDirectoryRecursive(dirPath, basePath)\<close>, given the node found at \<open>dirPath\<close>
  (\<open>None\<close> when \<^verbatim>\<open>fs.existsSync\<close> is false), and the loop over the directory entries
  with the object \<^verbatim>\<open>files\<close> built so far. \<^verbatim>\<open>fs.readdirSync\<close> is outside the
  \<^verbatim>\<open>try\<close> block: when it throws, the snapshot throws. An entry that is not a directory
  is read as a file, and a read that raises is caught. The second component holds the
  warnings written.
\<close>

fun readDirectoryRecursive ::
    "runtime \<Rightarrow> node option \<Rightarrow> jsstring \<Rightarrow> (error + filesobj) \<times> message list"
  and readItems ::
    "runtime \<Rightarrow> (jsstring \<times> node) list \<Rightarrow> jsstring \<Rightarrow> filesobj \<times> message list
       \<Rightarrow> (error + filesobj) \<times> message list"
where
  "readDirectoryRecursive rt None basePath = (Inr emptyObject, [])"
| "readDirectoryRecursive rt (Some Dangling) basePath = (Inr emptyObject, [])"
| "readDirectoryRecursive rt (Some (File c)) basePath = (Inl SystemError, [])"
| "readDirectoryRecursive rt (Some (Dir None)) basePath = (Inl SystemError, [])"
| "readDirectoryRecursive rt (Some (Dir (Some items))) basePath =
     readItems rt items basePath (emptyObject, [])"
| "readItems rt [] basePath (files, ms) = (Inr files, ms)"
| "readItems rt ((name, Dir d) # items) basePath (files, ms) =
     (case readDirectoryRecursive rt (Some (Dir d)) (relativePathOf rt basePath name) of
        (Inl e, ms') \<Rightarrow> (Inl e, ms @ ms')
      | (Inr sub, ms') \<Rightarrow> readItems rt items basePath (objectAssign files sub, ms @ ms'))"
| "readItems rt ((name, Dangling) # items) basePath (files, ms) =
     readItems rt items basePath
       (files, ms @ [CouldNotReadFile (relativePathOf rt basePath name)])"
| "readItems rt ((name, File c) # items) basePath (files, ms) =
     (case c of
        None \<Rightarrow>
          readItems rt items basePath
            (files, ms @ [CouldNotReadFile (relativePathOf rt basePath name)])
      | Some bytes \<Rightarrow>
          readItems rt items basePath
            (setProperty files (relativePathOf rt basePath name) (readFileEntry rt name bytes), ms))"

section \<open>The File Remover\<close>

text \<open>
  \<^verbatim>\<open>files[fileToRemove]\<close> is truthy for an own property (an entry is an object), and also
  for a name inherited from the prototype chain; \<^verbatim>\<open>delete\<close> removes an own property and
  does nothing otherwise.
\<close>

definition objectPrototypeKeys :: "jsstring list" where
  "objectPrototypeKeys = map js
     [''constructor'', ''hasOwnProperty'', ''isPrototypeOf'', ''propertyIsEnumerable'',
      ''toLocaleString'', ''toString'', ''valueOf'', ''__proto__'', ''__defineGetter__'',
      ''__defineSetter__'', ''__lookupGetter__'', ''__lookupSetter__'']"

definition truthyProperty :: "filesobj \<Rightarrow> jsstring \<Rightarrow> bool" where
  "truthyProperty files k \<longleftrightarrow>
     own files k \<noteq> None
     \<or> (case proto files of
           Some e \<Rightarrow> k = js ''type'' \<or> (k = js ''content'' \<and> content e \<noteq> [])
         | None \<Rightarrow> False)
     \<or> k \<in> set objectPrototypeKeys"

definition deleteProperty :: "filesobj \<Rightarrow> jsstring \<Rightarrow> filesobj" where
  "deleteProperty files k = files\<lparr>own := (own files)(k := None)\<rparr>"

fun removeEach :: "jsstring list \<Rightarrow> filesobj \<times> message list \<Rightarrow> filesobj \<times> message list" where
  "removeEach [] (files, ms) = (files, ms)"
| "removeEach (fileToRemove # rest) (files, ms) =
     (if truthyProperty files fileToRemove
      then removeEach rest (deleteProperty files fileToRemove, ms @ [RemovedFile fileToRemove])
      else removeEach rest (files, ms @ [FileNotFoundForRemoval fileToRemove]))"

text \<open>The list is \<open>None\<close> when the argument is \<^verbatim>\<open>undefined\<close> or \<^verbatim>\<open>null\<close>.\<close>

definition removeFiles :: "filesobj \<Rightarrow> jsstring list option \<Rightarrow> filesobj \<times> message list" where
  "removeFiles files filesToRemove =
     (case filesToRemove of
        None \<Rightarrow> (files, [])
      | Some ps \<Rightarrow> if length ps = 0 then (files, []) else removeEach ps (files, []))"

section \<open>The Manifest Merger\<close>

record npmGroups =
  dependencies :: "(jsstring \<rightharpoonup> json) option"
  devDependencies :: "(jsstring \<rightharpoonup> json) option"

record dependencyGroups =
  npm :: "npmGroups option"

definition noDependencies :: dependencyGroups where
  "noDependencies = \<lparr>npm = None\<rparr>"

text \<open>
  \<^verbatim>\<open>if (incoming) packageJson[key] = {...packageJson[key], ...incoming}\<close>. The parsed
  manifest need not be an object: reading a property of \<^verbatim>\<open>null\<close> throws; a property set on
  a boolean, number or string is dropped (the module is not in strict mode); a property set
  on an array is not an element and does not reach \<^verbatim>\<open>JSON.stringify\<close>.
\<close>

definition mergeGroup :: "json \<Rightarrow> jsstring \<Rightarrow> (jsstring \<rightharpoonup> json) option \<Rightarrow> error + json" where
  "mergeGroup packageJson key incoming =
     (case incoming of
        None \<Rightarrow> Inr packageJson
      | Some inc \<Rightarrow>
          (case packageJson of
             JObj m \<Rightarrow> Inr (JObj (m(key \<mapsto> JObj (spread (m key) ++ inc))))
           | JNull \<Rightarrow> Inl TypeError
           | _ \<Rightarrow> Inr packageJson))"

definition readFileSync_utf8 :: "runtime \<Rightarrow> node \<Rightarrow> error + jsstring" where
  "readFileSync_utf8 rt n =
     (case n of File (Some bytes) \<Rightarrow> Inr (utf8_decode rt bytes) | _ \<Rightarrow> Inl SystemError)"

text \<open>
  \<^verbatim>\<open>fs.writeFileSync(path, data)\<close> for the entry \<open>name\<close> of the project directory.
\<close>

definition writeFileSync ::
  "runtime \<Rightarrow> jsstring \<Rightarrow> jsstring \<Rightarrow> jsstring \<Rightarrow> world \<Rightarrow> (error + unit) \<times> world" where
  "writeFileSync rt projectPath name data w =
     (let w' = w\<lparr>trace := trace w @ [WriteFile (pathJoin rt projectPath name) data]\<rparr>
      in if writeFileSyncFails rt then (Inl SystemError, w')
         else case project w of
                Some (Dir (Some items)) \<Rightarrow>
                  (case map_of items name of
                     Some (Dir d) \<Rightarrow> (Inl SystemError, w')
                   | _ \<Rightarrow>
                     (Inr (),
                      w'\<lparr>project :=
                           Some (Dir (Some (putEntry name (File (Some (utf8_encode rt data))) items)))\<rparr>))
              | _ \<Rightarrow> (Inl SystemError, w'))"

text \<open>
  \<^verbatim>\<open>updatePackageJson(projectPath, dependencies)\<close>, where \<open>projectPath\<close> is the project
  directory of the world.
\<close>

definition updatePackageJson ::
  "runtime \<Rightarrow> jsstring \<Rightarrow> dependencyGroups \<Rightarrow> world \<Rightarrow> (error + unit) \<times> world" where
  "updatePackageJson rt projectPath deps w =
     (case lookupEntry (project w) (js ''package.json'') of
        None \<Rightarrow> (Inr (), w\<lparr>console := console w @ [PackageJsonNotFound]\<rparr>)
      | Some file \<Rightarrow>
          (case readFileSync_utf8 rt file of
             Inl e \<Rightarrow> (Inl e, w)
           | Inr text \<Rightarrow>
               (case json_parse rt text of
                  None \<Rightarrow> (Inl SyntaxError, w)
                | Some packageJson \<Rightarrow>
                    (case mergeGroup packageJson (js ''dependencies'')
                            (case npm deps of None \<Rightarrow> None | Some g \<Rightarrow> dependencies g) of
                       Inl e \<Rightarrow> (Inl e, w)
                     | Inr merged \<Rightarrow>
                         (case mergeGroup merged (js ''devDependencies'')
                                 (case npm deps of None \<Rightarrow> None | Some g \<Rightarrow> devDependencies g) of
                            Inl e \<Rightarrow> (Inl e, w)
                          | Inr merged' \<Rightarrow>
                              writeFileSync rt projectPath (js ''package.json'')
                                (json_stringify rt merged') w)))))"

section \<open>The Scaffold Orchestrator\<close>

record moduleConfig =
  generationFilesRemove :: "jsstring list option"  \<comment> \<open>\<^verbatim>\<open>generation?.files?.remove\<close>\<close>
  moduleDependencies :: "dependencyGroups option"  \<comment> \<open>\<^verbatim>\<open>dependencies\<close>\<close>

record scaffoldContext =
  projectName :: jsstring  \<comment> \<open>\<^verbatim>\<open>project.name\<close>\<close>
  fieldValues :: "(jsstring \<rightharpoonup> json) option"  \<comment> \<open>\<^verbatim>\<open>module.fieldValues\<close>\<close>

text \<open>Lines 215 to 219: the field values, the flag and the template.\<close>

definition viteTemplate :: "(jsstring \<rightharpoonup> json) option \<Rightarrow> jsstring" where
  "viteTemplate moduleFieldValues =
     (let fieldValues = (case moduleFieldValues of None \<Rightarrow> Map.empty | Some fv \<Rightarrow> fv);
          useTypeScript = (fieldValues (js ''useTypeScript'') \<noteq> Some (JBool False))
      in if useTypeScript then js ''react-ts'' else js ''react'')"

definition isTestMode :: "runtime \<Rightarrow> bool" where
  "isTestMode rt \<longleftrightarrow>
     env rt (js ''NODE_ENV'') = Some (js ''test'') \<or> env rt (js ''JEST_WORKER_ID'') \<noteq> None"

text \<open>The \<^verbatim>\<open>try\<close> block of \<^verbatim>\<open>scaffold\<close>.\<close>

definition scaffoldTry ::
  "runtime \<Rightarrow> moduleConfig \<Rightarrow> jsstring \<Rightarrow> jsstring \<Rightarrow> world \<Rightarrow> (error + filesobj) \<times> world" where
  "scaffoldTry rt config tempDir template w0 =
     (case runViteCreate rt tempDir (js ''project'') template w0 of
        (Inl e, w1) \<Rightarrow> (Inl e, w1)
      | (Inr u, w1) \<Rightarrow>
     let actualProjectPath = pathJoin rt tempDir (js ''project'') in
     (case updatePackageJson rt actualProjectPath
             (case moduleDependencies config of None \<Rightarrow> noDependencies | Some d \<Rightarrow> d) w1 of
        (Inl e, w2) \<Rightarrow> (Inl e, w2)
      | (Inr u, w2) \<Rightarrow>
     (case (if \<not> isTestMode rt then
              (case runCommand rt (js ''npm'') [js ''install''] actualProjectPath
                      (js ''Installing dependencies'') w2 of
                 (Inl e, w3) \<Rightarrow> (Inl e, w3)
               | (Inr u, w3) \<Rightarrow>
                   (case runCommand rt (js ''npx'') [js ''shadcn@latest'', js ''init'', js ''-d'']
                           actualProjectPath (js ''Initializing shadcn'') w3 of
                      (Inl e, w4) \<Rightarrow>
                        (Inr (), w4\<lparr>console := console w4 @ [ShadcnInitFailed e]\<rparr>)
                    | (Inr u, w4) \<Rightarrow> (Inr (), w4)))
            else (Inr (), w2)) of
        (Inl e, w4) \<Rightarrow> (Inl e, w4)
      | (Inr u, w4) \<Rightarrow>
     (case readDirectoryRecursive rt (project w4) [] of
        (Inl e, ms) \<Rightarrow> (Inl e, w4\<lparr>console := console w4 @ ms\<rparr>)
      | (Inr files, ms) \<Rightarrow>
     let filesToRemove = (case generationFilesRemove config of None \<Rightarrow> [] | Some ps \<Rightarrow> ps);
         (cleanedFiles, ms') = removeFiles files (Some filesToRemove)
     in (Inr cleanedFiles, w4\<lparr>console := console w4 @ ms @ ms'\<rparr>)))))"

text \<open>The \<^verbatim>\<open>finally\<close> block: the removal, whose failure is caught and logged.\<close>

definition scaffoldFinally :: "runtime \<Rightarrow> jsstring \<Rightarrow> world \<Rightarrow> world" where
  "scaffoldFinally rt tempDir w =
     (let w' = w\<lparr>trace := trace w @ [RmSync tempDir]\<rparr>
      in if rmSyncFails rt then w'\<lparr>console := console w' @ [CouldNotCleanUp tempDir]\<rparr>
         else w'\<lparr>tempDirExists := False, project := None\<rparr>)"

text \<open>
  \<^verbatim>\<open>scaffold(moduleConfig, context)\<close>. \<^verbatim>\<open>fs.mkdtempSync\<close> is called before the
  \<^verbatim>\<open>try\<close> statement.
\<close>

definition scaffold ::
  "runtime \<Rightarrow> moduleConfig \<Rightarrow> scaffoldContext \<Rightarrow> world \<Rightarrow> (error + filesobj) \<times> world" where
  "scaffold rt config ctx w =
     (let template = viteTemplate (fieldValues ctx)
      in case mkdtempSync rt of
           None \<Rightarrow> (Inl SystemError, w\<lparr>trace := trace w @ [Mkdtemp]\<rparr>)
         | Some tempDir \<Rightarrow>
             (case scaffoldTry rt config tempDir template
                     (w\<lparr>tempDirExists := True, project := None, trace := trace w @ [Mkdtemp]\<rparr>) of
                (result, w') \<Rightarrow> (result, scaffoldFinally rt tempDir w')))"

section \<open>Notions of the specification\<close>

text \<open>
  The extension of a file name, in the words of the specification: what follows the last
  dot, when there is one. The allow-list is written in lower case and an extension is
  compared with it after folding its ASCII letters to lower case.
\<close>

definition toLowerCase :: "16 word \<Rightarrow> 16 word" where
  "toLowerCase c = (if 65 \<le> c \<and> c \<le> 90 then c + 32 else c)"

definition extension :: "jsstring \<Rightarrow> jsstring option" where
  "extension name =
     (if 46 \<in> set name then Some (rev (takeWhile (\<lambda>c. c \<noteq> 46) (rev name))) else None)"

definition listedExtension :: "jsstring \<Rightarrow> bool" where
  "listedExtension name \<longleftrightarrow>
     (case extension name of
        None \<Rightarrow> False
      | Some x \<Rightarrow> map toLowerCase x \<in> set binaryExtensions)"

text \<open>
  The incoming group of a DependencyGroups value as a table of names and versions: empty
  when the group, or \<^verbatim>\<open>npm\<close> itself, is absent.
\<close>

definition incomingGroup ::
  "dependencyGroups \<Rightarrow> (npmGroups \<Rightarrow> (jsstring \<rightharpoonup> json) option) \<Rightarrow> (jsstring \<rightharpoonup> json)" where
  "incomingGroup deps sel =
     (case npm deps of
        None \<Rightarrow> Map.empty
      | Some g \<Rightarrow> (case sel g of None \<Rightarrow> Map.empty | Some inc \<Rightarrow> inc))"

text \<open>
  The value of the field \<^verbatim>\<open>useTypeScript\<close> of a scaffold context: \<open>None\<close> when the field,
  or the table of field values, is absent.
\<close>

definition useTypeScriptField :: "scaffoldContext \<Rightarrow> json option" where
  "useTypeScriptField ctx =
     (case fieldValues ctx of None \<Rightarrow> None | Some fv \<Rightarrow> fv (js ''useTypeScript''))"

text \<open>
  A tree as a file system presents it: within a directory the names are distinct, and a
  name is not empty and holds no separator.
\<close>

fun wellFormed :: "runtime \<Rightarrow> node \<Rightarrow> bool" where
  "wellFormed rt (Dir (Some items)) \<longleftrightarrow>
     distinct (map fst items)
     \<and> list_all (\<lambda>(name, n). name \<noteq> [] \<and> pathSeparator rt \<notin> set name \<and> wellFormed rt n) items"
| "wellFormed rt n \<longleftrightarrow> True"

text \<open>
  \<open>fileAt rt dir basePath k name bytes\<close>: under the directory \<open>dir\<close>, whose own relative path
  is \<open>basePath\<close>, there is a readable file called \<open>name\<close> with contents \<open>bytes\<close>, and \<open>k\<close>
  is its relative path.
\<close>

inductive fileAt :: "runtime \<Rightarrow> node \<Rightarrow> jsstring \<Rightarrow> jsstring \<Rightarrow> jsstring \<Rightarrow> byte list \<Rightarrow> bool" where
  here: "(name, File (Some bytes)) \<in> set items
      \<Longrightarrow> fileAt rt (Dir (Some items)) basePath (relativePathOf rt basePath name) name bytes"
| below: "(d, sub) \<in> set items \<Longrightarrow> fileAt rt sub (relativePathOf rt basePath d) k name bytes
      \<Longrightarrow> fileAt rt (Dir (Some items)) basePath k name bytes"

code_pred fileAt .

section \<open>Example inputs\<close>

definition exampleFiles :: filesobj where
  "exampleFiles =
     \<lparr>own = [js ''README.md'' \<mapsto> \<lparr>type = Text, content = js ''hello''\<rparr>,
             js ''logo.png'' \<mapsto> \<lparr>type = Binary, content = js ''iVBORw==''\<rparr>],
      proto = None\<rparr>"

definition asciiBytes :: "string \<Rightarrow> byte list" where
  "asciiBytes s = map (\<lambda>c. of_nat (of_char c)) s"

definition exampleTree :: node where
  "exampleTree =
     Dir (Some
       [(js ''README.md'', File (Some (asciiBytes ''hi''))),
        (js ''assets'', Dir (Some [(js ''LOGO.PNG'', File (Some [137, 80, 78, 71]))]))])"

text \<open>
  A runtime for the examples. Its decoder and encoder are UTF-8 on ASCII text, which is
  all the examples hold; its parser answers the one manifest of the examples and rejects
  the other text they use; the text it prints plays no part.
\<close>

definition exampleManifest :: string where
  "exampleManifest =
     ''{'' @ [CHR 0x22] @ ''dependencies'' @ [CHR 0x22] @ '':{'' @ [CHR 0x22] @ ''b''
       @ [CHR 0x22] @ '':'' @ [CHR 0x22] @ ''2.0.0'' @ [CHR 0x22] @ ''}}''"

definition exampleManifestObject :: "jsstring \<rightharpoonup> json" where
  "exampleManifestObject = [js ''dependencies'' \<mapsto> JObj [js ''b'' \<mapsto> JStr (js ''2.0.0'')]]"

definition exampleParse :: "jsstring \<Rightarrow> json option" where
  "exampleParse text =
     (if text = js exampleManifest then Some (JObj exampleManifestObject) else None)"

definition exampleProject :: node where
  "exampleProject =
     Dir (Some
       [(js ''package.json'', File (Some (asciiBytes exampleManifest))),
        (js ''README.md'', File (Some (asciiBytes ''hi'')))])"

definition exampleSpawn ::
  "jsstring \<Rightarrow> jsstring list \<Rightarrow> jsstring \<Rightarrow> node option \<Rightarrow> outcome \<times> node option" where
  "exampleSpawn command args workingDir proj =
     (case args of
        a # rest \<Rightarrow>
          if a = js ''create'' then (Closed (Some 0) [] [], Some exampleProject)
          else (Closed (Some 0) [] [], proj)
      | [] \<Rightarrow> (Closed (Some 0) [] [], proj))"

definition exampleRuntime :: runtime where
  "exampleRuntime =
     \<lparr>win32 = False,
      env = [js ''NODE_ENV'' \<mapsto> js ''test''],
      mkdtempSync = Some (js ''/tmp/genesis3-vite-a1b2c3''),
      rmSyncFails = False,
      writeFileSyncFails = False,
      spawn = exampleSpawn,
      utf8_decode = map (\<lambda>b. of_nat (unat b)),
      utf8_encode = map (\<lambda>c. of_nat (unat c)),
      json_parse = exampleParse,
      json_stringify = (\<lambda>v. [])\<rparr>"

definition exampleWorld :: world where
  "exampleWorld = \<lparr>tempDirExists = False, project = None, trace = [], console = [], lateConsole = []\<rparr>"

definition exampleSnapshot :: filesobj where
  "exampleSnapshot =
     \<lparr>own = [js ''README.md'' \<mapsto> \<lparr>type = Text, content = js ''hi''\<rparr>,
             js ''assets/LOGO.PNG'' \<mapsto> \<lparr>type = Binary, content = js ''iVBORw==''\<rparr>],
      proto = None\<rparr>"

text \<open>
  A runtime in which no child process can be spawned: the event \<^verbatim>\<open>error\<close>, then the
  event \<^verbatim>\<open>close\<close> with the error number.
\<close>

definition unspawnable :: runtime where
  "unspawnable =
     exampleRuntime
       \<lparr>spawn := (\<lambda>command args workingDir proj.
                    (SpawnFailed (js ''spawn /bin/sh ENOENT'') (Some (- 2)) [] [], proj))\<rparr>"

text \<open>A runtime in which every child process ends with exit code 1.\<close>

definition failingInstall :: "jsstring \<Rightarrow> runtime" where
  "failingInstall out =
     exampleRuntime
       \<lparr>spawn := (\<lambda>command args workingDir proj. (Closed (Some 1) out (js ''npm ERR''), proj))\<rparr>"

text \<open>The world after the generator has run, and the dependencies of the example.\<close>

definition exampleGenerated :: world where
  "exampleGenerated = exampleWorld\<lparr>tempDirExists := True, project := Some exampleProject\<rparr>"

definition exampleDependencies :: dependencyGroups where
  "exampleDependencies =
     \<lparr>npm = Some \<lparr>dependencies = Some [js ''a'' \<mapsto> JStr (js ''1.0.0'')],
                  devDependencies = None\<rparr>\<rparr>"

definition exampleConfig :: moduleConfig where
  "exampleConfig =
     \<lparr>generationFilesRemove = Some [js ''README.md'', js ''missing.txt''],
      moduleDependencies = Some exampleDependencies\<rparr>"

definition exampleContext :: scaffoldContext where
  "exampleContext =
     \<lparr>projectName = js ''demo'', fieldValues = Some [js ''useTypeScript'' \<mapsto> JBool True]\<rparr>"

text \<open>A runtime whose generator leaves a manifest that is not JSON.\<close>

definition brokenProject :: node where
  "brokenProject = Dir (Some [(js ''package.json'', File (Some (asciiBytes ''{'')))])"

definition brokenRuntime :: runtime where
  "brokenRuntime =
     exampleRuntime
       \<lparr>spawn := (\<lambda>command args workingDir proj. (Closed (Some 0) [] [], Some brokenProject))\<rparr>"

definition brokenGenerated :: world where
  "brokenGenerated =
     \<lparr>tempDirExists = True,
      project = Some brokenProject,
      trace = [Mkdtemp,
               Spawn (js ''npm'')
                 [js ''create'', js ''vite@latest'', js ''project'', js ''--'', js ''--template'',
                  js ''react-ts'']
                 (js ''/tmp/genesis3-vite-a1b2c3'')],
      console = [], lateConsole = []\<rparr>"

text \<open>Contexts that ask for plain JavaScript, and that carry the string \<^verbatim>\<open>false\<close>.\<close>

definition plainContext :: scaffoldContext where
  "plainContext =
     \<lparr>projectName = js ''demo'', fieldValues = Some [js ''useTypeScript'' \<mapsto> JBool False]\<rparr>"

definition stringContext :: scaffoldContext where
  "stringContext =
     \<lparr>projectName = js ''demo'',
      fieldValues = Some [js ''useTypeScript'' \<mapsto> JStr (js ''false'')]\<rparr>"

section \<open>Base64 round trip\<close>

lemma indexOf_nth: "distinct xs \<Longrightarrow> i < length xs \<Longrightarrow> indexOf (xs ! i) xs = Some i"
proof (induction xs arbitrary: i)
  case Nil
  then show ?case by simp
next
  case (Cons y ys)
  then show ?case by (cases i) auto
qed

lemma length_base64Alphabet: "length base64Alphabet = 64"
  by (simp add: base64Alphabet_def js_def)

lemma distinct_base64Alphabet: "distinct base64Alphabet"
  by (simp add: base64Alphabet_def js_def)

lemma base64Pad_notin: "base64Pad \<notin> set base64Alphabet"
  by (simp add: base64Alphabet_def js_def base64Pad_def)

lemma base64Value_Char: "i < 64 \<Longrightarrow> base64Value (base64Char i) = Some i"
  by (simp add: base64Value_def base64Char_def indexOf_nth distinct_base64Alphabet length_base64Alphabet)

lemma base64Char_not_pad: "i < 64 \<Longrightarrow> base64Char i \<noteq> base64Pad"
  using base64Pad_notin nth_mem [of i base64Alphabet]
  by (metis base64Char_def length_base64Alphabet)

lemma sextets_of_12: "(n div 64 * 64 + n mod 64) = (n::nat)"
  by simp

lemma sextets_of_18: "((n div 4096 * 64 + n div 64 mod 64) * 64 + n mod 64) = (n::nat)"
proof -
  have "n div 4096 = n div 64 div 64" by (simp add: div_mult2_eq)
  then have "n div 4096 * 64 + n div 64 mod 64 = n div 64" by simp
  then show ?thesis by simp
qed

lemma sextets_of_24:
  "((n div 262144 * 64 + n div 4096 mod 64) * 64 + n div 64 mod 64) * 64 + n mod 64 = (n::nat)"
proof -
  have "n div 262144 = n div 4096 div 64" by (simp add: div_mult2_eq)
  then have "n div 262144 * 64 + n div 4096 mod 64 = n div 4096" by simp
  then show ?thesis by (simp only: sextets_of_18)
qed

lemma unat_byte_less: "unat (a :: byte) < 256"
  using unsigned_less [of a, where 'a = nat] by simp

lemma low_octet: "c < 256 \<Longrightarrow> (a * 65536 + b * 256 + c) mod 256 = (c::nat)"
proof -
  assume c: "c < 256"
  have "a * 65536 + b * 256 + c = c + (a * 256 + b) * 256" by simp
  then show ?thesis using c by (metis mod_mult_self1 mod_less)
qed

lemma mid_octet: "b < 256 \<Longrightarrow> c < 256 \<Longrightarrow> (a * 65536 + b * 256 + c) div 256 mod 256 = (b::nat)"
proof -
  assume b: "b < 256" and c: "c < 256"
  have "a * 65536 + b * 256 + c = c + (a * 256 + b) * 256" by simp
  then have "(a * 65536 + b * 256 + c) div 256 = a * 256 + b" using c by simp
  then show ?thesis using b by simp
qed

lemma decode_group3:
  fixes a b c :: byte
  defines "n \<equiv> unat a * 65536 + unat b * 256 + unat c"
  shows "of_nat (n div 65536) = a" "of_nat (n div 256 mod 256) = b" "of_nat (n mod 256) = c"
    and "n < 16777216"
proof -
  have la: "unat a < 256" and lb: "unat b < 256" and lc: "unat c < 256"
    by (rule unat_byte_less)+
  have "n div 65536 = unat a" using lb lc by (simp add: n_def)
  then show "of_nat (n div 65536) = a" by simp
  have "n div 256 mod 256 = unat b" unfolding n_def using lb lc by (rule mid_octet)
  then show "of_nat (n div 256 mod 256) = b" by simp
  have "n mod 256 = unat c" unfolding n_def using lc by (rule low_octet)
  then show "of_nat (n mod 256) = c" by simp
  show "n < 16777216" using la lb lc by (simp add: n_def)
qed

lemma decode_group2:
  fixes a b :: byte
  defines "n \<equiv> (unat a * 256 + unat b) * 4"
  shows "of_nat (n div 4 div 256) = a" "of_nat (n div 4 mod 256) = b"
proof -
  have lb: "unat b < 256" by (rule unat_byte_less)
  have "n div 4 div 256 = unat a" using lb by (simp add: n_def)
  then show "of_nat (n div 4 div 256) = a" by simp
  have "n div 4 mod 256 = unat b" using lb by (simp add: n_def)
  then show "of_nat (n div 4 mod 256) = b" by simp
qed

lemma decode_one:
  assumes "p < 64" "q < 64"
  shows "base64_decode [base64Char p, base64Char q, base64Pad, base64Pad] =
         Some [of_nat ((p * 64 + q) div 16)]"
  using assms by (simp add: base64Value_Char)

lemma decode_two:
  assumes "p < 64" "q < 64" "r < 64"
  shows "base64_decode [base64Char p, base64Char q, base64Char r, base64Pad] =
         Some [of_nat (((p * 64 + q) * 64 + r) div 4 div 256),
               of_nat (((p * 64 + q) * 64 + r) div 4 mod 256)]"
  using assms by (simp add: base64Value_Char base64Char_not_pad Let_def)

lemma decode_three:
  assumes "p < 64" "q < 64" "r < 64" "s < 64"
  shows "base64_decode (base64Char p # base64Char q # base64Char r # base64Char s # rest) =
         map_option (\<lambda>bs. of_nat ((((p * 64 + q) * 64 + r) * 64 + s) div 65536)
                          # of_nat ((((p * 64 + q) * 64 + r) * 64 + s) div 256 mod 256)
                          # of_nat ((((p * 64 + q) * 64 + r) * 64 + s) mod 256) # bs)
           (base64_decode rest)"
  using assms by (simp add: base64Value_Char base64Char_not_pad Let_def)

lemma base64_roundtrip: "base64_decode (base64_encode bs) = Some bs"
proof (induction bs rule: base64_encode.induct)
  case 1
  then show ?case by simp
next
  case (2 a)
  define n where "n = unat a * 16"
  have enc: "base64_encode [a] = [base64Char (n div 64), base64Char (n mod 64), base64Pad, base64Pad]"
    by (simp only: base64_encode.simps Let_def n_def)
  have "n < 4096" using unat_byte_less [of a] by (simp add: n_def)
  then have "n div 64 < 64" "n mod 64 < 64" by simp_all
  then have "base64_decode (base64_encode [a]) = Some [of_nat ((n div 64 * 64 + n mod 64) div 16)]"
    unfolding enc by (rule decode_one)
  also have "n div 64 * 64 + n mod 64 = n" by (rule sextets_of_12)
  finally have "base64_decode (base64_encode [a]) = Some [of_nat (n div 16)]" .
  moreover have "of_nat (n div 16) = a" by (simp add: n_def)
  ultimately show ?case by (simp only:)
next
  case (3 a b)
  define n where "n = (unat a * 256 + unat b) * 4"
  have enc: "base64_encode [a, b] =
      [base64Char (n div 4096), base64Char (n div 64 mod 64), base64Char (n mod 64), base64Pad]"
    by (simp only: base64_encode.simps Let_def n_def)
  have n: "n < 262144"
    using unat_byte_less [of a] unat_byte_less [of b] by (simp add: n_def)
  then have "n div 4096 < 64" "n div 64 mod 64 < 64" "n mod 64 < 64"
    by simp_all
  then have "base64_decode (base64_encode [a, b]) =
      Some [of_nat (((n div 4096 * 64 + n div 64 mod 64) * 64 + n mod 64) div 4 div 256),
            of_nat (((n div 4096 * 64 + n div 64 mod 64) * 64 + n mod 64) div 4 mod 256)]"
    unfolding enc by (rule decode_two)
  also have "(n div 4096 * 64 + n div 64 mod 64) * 64 + n mod 64 = n" by (rule sextets_of_18)
  finally have "base64_decode (base64_encode [a, b]) =
      Some [of_nat (n div 4 div 256), of_nat (n div 4 mod 256)]" .
  then show ?case
    unfolding n_def by (simp only: decode_group2)
next
  case (4 a b c rest)
  define n where "n = unat a * 65536 + unat b * 256 + unat c"
  have enc: "base64_encode (a # b # c # rest) =
      base64Char (n div 262144) # base64Char (n div 4096 mod 64) #
      base64Char (n div 64 mod 64) # base64Char (n mod 64) # base64_encode rest"
    by (simp only: base64_encode.simps Let_def n_def append.simps)
  have n: "n < 16777216"
    unfolding n_def by (rule decode_group3)
  then have "n div 262144 < 64" "n div 4096 mod 64 < 64" "n div 64 mod 64 < 64" "n mod 64 < 64"
    by simp_all
  then have "base64_decode (base64_encode (a # b # c # rest)) =
      map_option (\<lambda>bs. of_nat ((((n div 262144 * 64 + n div 4096 mod 64) * 64 + n div 64 mod 64) * 64 + n mod 64) div 65536)
                          # of_nat ((((n div 262144 * 64 + n div 4096 mod 64) * 64 + n div 64 mod 64) * 64 + n mod 64) div 256 mod 256)
                          # of_nat ((((n div 262144 * 64 + n div 4096 mod 64) * 64 + n div 64 mod 64) * 64 + n mod 64) mod 256) # bs)
           (base64_decode (base64_encode rest))"
    unfolding enc by (rule decode_three)
  also have "((n div 262144 * 64 + n div 4096 mod 64) * 64 + n div 64 mod 64) * 64 + n mod 64 = n"
    by (rule sextets_of_24)
  finally have "base64_decode (base64_encode (a # b # c # rest)) =
      map_option (\<lambda>bs. of_nat (n div 65536) # of_nat (n div 256 mod 256) # of_nat (n mod 256) # bs)
           (base64_decode (base64_encode rest))" .
  then show ?case
    unfolding n_def by (simp only: decode_group3 4 option.map)
qed


section \<open>The regular expression and the extension\<close>

lemma canonicalize_dot: "canonicalize c = 46 \<longleftrightarrow> c = 46"
  unfolding canonicalize_def by (auto; unat_arith?)

lemma canonicalize_eq_dot: "canonicalize d = canonicalize 46 \<longleftrightarrow> d = 46"
proof -
  have c: "canonicalize 46 = 46" by (simp add: canonicalize_def)
  show ?thesis unfolding c by (rule canonicalize_dot)
qed

lemma canonicalize_toLowerCase: "canonicalize (toLowerCase c) = canonicalize c"
proof (cases "65 \<le> c \<and> c \<le> 90")
  case True
  then have "97 \<le> c + 32 \<and> c + 32 \<le> 122" by (unat_arith, simp)
  moreover have "\<not> (97 \<le> c \<and> c \<le> 122)" using True by unat_arith
  ultimately show ?thesis using True by (simp add: canonicalize_def toLowerCase_def)
next
  case False
  then show ?thesis by (auto simp: toLowerCase_def)
qed

lemma toLowerCase_cong: "canonicalize c = canonicalize d \<Longrightarrow> toLowerCase c = toLowerCase d"
  unfolding canonicalize_def toLowerCase_def by (auto split: if_splits; unat_arith?)


lemma endsWithIgnoreCase_iff:
  "endsWithIgnoreCase s p \<longleftrightarrow>
     (\<exists>pre t. s = pre @ t \<and> map canonicalize t = map canonicalize p)"
proof
  assume "endsWithIgnoreCase s p"
  then have "s = take (length s - length p) s @ drop (length s - length p) s"
    and "map canonicalize (drop (length s - length p) s) = map canonicalize p"
    by (simp_all add: endsWithIgnoreCase_def)
  then show "\<exists>pre t. s = pre @ t \<and> map canonicalize t = map canonicalize p"
    by blast
next
  assume "\<exists>pre t. s = pre @ t \<and> map canonicalize t = map canonicalize p"
  then obtain pre t where s: "s = pre @ t" and t: "map canonicalize t = map canonicalize p"
    by blast
  from t have "length t = length p"
    by (rule map_eq_imp_length_eq)
  with s t show "endsWithIgnoreCase s p"
    by (simp add: endsWithIgnoreCase_def)
qed

lemma extension_append_dot:
  assumes "46 \<notin> set t"
  shows "extension (pre @ 46 # t) = Some t"
proof -
  have "takeWhile (\<lambda>c. c \<noteq> 46) (rev t @ 46 # rev pre) = rev t"
    using assms by (subst takeWhile_append2) auto
  then show ?thesis by (simp add: extension_def)
qed

lemma extension_SomeD:
  assumes "extension name = Some x"
  shows "\<exists>pre. name = pre @ 46 # x"
proof -
  from assms have mem: "46 \<in> set (rev name)"
    and x: "x = rev (takeWhile (\<lambda>c. c \<noteq> 46) (rev name))"
    by (auto simp: extension_def split: if_splits)
  from mem have "dropWhile (\<lambda>c. c \<noteq> 46) (rev name) \<noteq> []"
    by (simp add: dropWhile_eq_Nil_conv)
  then obtain y ys where d: "dropWhile (\<lambda>c. c \<noteq> 46) (rev name) = y # ys"
    by (cases "dropWhile (\<lambda>c. c \<noteq> 46) (rev name)") auto
  then have "y = 46"
    using hd_dropWhile [of "\<lambda>c. c \<noteq> 46" "rev name"] by auto
  with d have "rev name = rev x @ 46 # ys"
    using takeWhile_dropWhile_id [of "\<lambda>c. c \<noteq> 46" "rev name"] x by simp
  then have "rev (rev name) = rev (rev x @ 46 # ys)"
    by (simp only:)
  then have "name = rev ys @ 46 # x"
    by simp
  then show ?thesis by blast
qed

lemma binaryExtensions_all_plain:
  "\<forall>e \<in> set binaryExtensions. 46 \<notin> set e \<and> map toLowerCase e = e"
  by (simp add: binaryExtensions_def js_def toLowerCase_def)

lemma binaryExtensions_plain:
  assumes "e \<in> set binaryExtensions"
  shows "46 \<notin> set e" and "map toLowerCase e = e"
  using assms binaryExtensions_all_plain by blast+

lemma canonicalize_eq_no_dot:
  assumes "map canonicalize t = map canonicalize e" and "46 \<notin> set e"
  shows "46 \<notin> set t"
proof
  assume "46 \<in> set t"
  then have "canonicalize 46 \<in> set (map canonicalize e)"
    using assms(1) by (metis image_eqI set_map)
  then obtain d where "d \<in> set e" "canonicalize d = canonicalize 46"
    by auto
  then have "d = 46" by (simp only: canonicalize_eq_dot)
  with \<open>d \<in> set e\<close> assms(2) show False by simp
qed

lemma map_toLowerCase_cong:
  "map canonicalize x = map canonicalize e \<Longrightarrow> map toLowerCase x = map toLowerCase e"
proof (induction x arbitrary: e)
  case Nil
  then show ?case by simp
next
  case (Cons c x)
  then obtain d e' where e: "e = d # e'" by (cases e) auto
  with Cons.prems have c: "canonicalize c = canonicalize d"
    and x: "map canonicalize x = map canonicalize e'"
    by simp_all
  from c have "toLowerCase c = toLowerCase d"
    by (rule toLowerCase_cong)
  moreover from x have "map toLowerCase x = map toLowerCase e'"
    by (rule Cons.IH)
  ultimately show ?case using e by simp
qed

lemma isBinary_iff_extension:
  "isBinary name \<longleftrightarrow>
     (\<exists>x. extension name = Some x \<and> map toLowerCase x \<in> set binaryExtensions)"
proof
  assume "isBinary name"
  then obtain e where e: "e \<in> set binaryExtensions"
    and ends: "endsWithIgnoreCase name (46 # e)"
    by (auto simp: isBinary_def list_ex_iff js_def)
  from ends obtain pre t where name: "name = pre @ t"
    and t: "map canonicalize t = map canonicalize (46 # e)"
    unfolding endsWithIgnoreCase_iff by blast
  from t obtain d x where tx: "t = d # x" and d: "canonicalize d = canonicalize 46"
    and x: "map canonicalize x = map canonicalize e"
    by (cases t) auto
  from d have "d = 46" by (simp only: canonicalize_eq_dot)
  have "46 \<notin> set x"
    using x binaryExtensions_plain(1) [OF e] by (rule canonicalize_eq_no_dot)
  then have "extension name = Some x"
    using name tx \<open>d = 46\<close> by (simp add: extension_append_dot)
  moreover have "map toLowerCase x = map toLowerCase e"
    using x by (rule map_toLowerCase_cong)
  then have "map toLowerCase x \<in> set binaryExtensions"
    using e by (simp add: binaryExtensions_plain(2))
  ultimately show "\<exists>x. extension name = Some x \<and> map toLowerCase x \<in> set binaryExtensions"
    by blast
next
  assume "\<exists>x. extension name = Some x \<and> map toLowerCase x \<in> set binaryExtensions"
  then obtain x where ext: "extension name = Some x"
    and mem: "map toLowerCase x \<in> set binaryExtensions"
    by blast
  from ext obtain pre where name: "name = pre @ 46 # x"
    using extension_SomeD by blast
  have "map canonicalize (46 # x) = map canonicalize (46 # map toLowerCase x)"
    by (simp add: canonicalize_toLowerCase)
  then have "endsWithIgnoreCase name (46 # map toLowerCase x)"
    unfolding endsWithIgnoreCase_iff using name by blast
  with mem show "isBinary name"
    by (auto simp: isBinary_def list_ex_iff js_def)
qed

section \<open>Properties of the File Remover\<close>

lemma removeEach_files:
  "fst (removeEach ps (files, ms)) = files\<lparr>own := own files |` (- set ps)\<rparr>"
proof (induction ps arbitrary: files ms)
  case Nil
  then show ?case by simp
next
  case (Cons p ps)
  show ?case
  proof (cases "truthyProperty files p")
    case True
    have eq: "own (deleteProperty files p) |` (- set ps) = own files |` (- set (p # ps))"
      by (rule ext) (simp add: deleteProperty_def restrict_map_def)
    have "fst (removeEach (p # ps) (files, ms))
            = fst (removeEach ps (deleteProperty files p, ms @ [RemovedFile p]))"
      using True by simp
    also have "\<dots> = (deleteProperty files p)\<lparr>own := own (deleteProperty files p) |` (- set ps)\<rparr>"
      by (rule Cons.IH)
    also have "\<dots> = files\<lparr>own := own files |` (- set (p # ps))\<rparr>"
      by (simp only: eq) (simp add: deleteProperty_def)
    finally show ?thesis .
  next
    case False
    then have "own files p = None"
      by (simp add: truthyProperty_def)
    then have eq: "own files |` (- set ps) = own files |` (- set (p # ps))"
      by (intro ext) (simp add: restrict_map_def)
    have "fst (removeEach (p # ps) (files, ms))
            = fst (removeEach ps (files, ms @ [FileNotFoundForRemoval p]))"
      using False by simp
    also have "\<dots> = files\<lparr>own := own files |` (- set ps)\<rparr>"
      by (rule Cons.IH)
    finally show ?thesis
      by (simp only: eq)
  qed
qed

lemma removeEach_messages:
  "set (snd (removeEach ps (files, ms)))
     \<subseteq> set ms \<union> RemovedFile ` set ps \<union> FileNotFoundForRemoval ` set ps"
proof (induction ps arbitrary: files ms)
  case Nil
  then show ?case by simp
next
  case (Cons p ps)
  show ?case
    using Cons.IH [of "deleteProperty files p" "ms @ [RemovedFile p]"]
      Cons.IH [of files "ms @ [FileNotFoundForRemoval p]"]
    by (cases "truthyProperty files p") auto
qed

lemma removeEach_keeps_messages:
  "set ms \<subseteq> set (snd (removeEach ps (files, ms)))"
proof (induction ps arbitrary: files ms)
  case Nil
  then show ?case by simp
next
  case (Cons p ps)
  show ?case
    using Cons.IH [of "ms @ [RemovedFile p]" "deleteProperty files p"]
      Cons.IH [of "ms @ [FileNotFoundForRemoval p]" files]
    by (cases "truthyProperty files p") auto
qed

lemma truthyProperty_restrict:
  assumes "\<not> truthyProperty files p"
  shows "\<not> truthyProperty (files\<lparr>own := own files |` A\<rparr>) p"
  using assms by (auto simp: truthyProperty_def restrict_map_def)

lemma removeEach_warns:
  assumes "p \<in> set ps" and "\<not> truthyProperty files p"
  shows "FileNotFoundForRemoval p \<in> set (snd (removeEach ps (files, ms)))"
  using assms
proof (induction ps arbitrary: files ms)
  case Nil
  then show ?case by simp
next
  case (Cons q ps)
  show ?case
  proof (cases "q = p")
    case True
    with Cons.prems
    have "FileNotFoundForRemoval p \<in> set (ms @ [FileNotFoundForRemoval p])"
      and "removeEach (q # ps) (files, ms) = removeEach ps (files, ms @ [FileNotFoundForRemoval p])"
      by simp_all
    then show ?thesis
      using removeEach_keeps_messages [of "ms @ [FileNotFoundForRemoval p]" ps files]
      by auto
  next
    case False
    with Cons.prems have mem: "p \<in> set ps" by simp
    show ?thesis
    proof (cases "truthyProperty files q")
      case True
      have "\<not> truthyProperty (deleteProperty files q) p"
        using Cons.prems(2) by (auto simp: truthyProperty_def deleteProperty_def)
      with mem True show ?thesis
        using Cons.IH [of "deleteProperty files q" "ms @ [RemovedFile q]"] by simp
    next
      case False
      with mem Cons.prems(2) show ?thesis
        using Cons.IH [of files "ms @ [FileNotFoundForRemoval q]"] by simp
    qed
  qed
qed

lemma removeFiles_files:
  "fst (removeFiles files (Some ps)) = files\<lparr>own := own files |` (- set ps)\<rparr>"
proof (cases "ps = []")
  case True
  then show ?thesis by (simp add: removeFiles_def restrict_map_def)
next
  case False
  then show ?thesis by (simp add: removeFiles_def removeEach_files)
qed

text \<open>
  What the File Remover does on every input. The own properties of the result are those of
  the input outside the list, each with its entry (type and content) unchanged, and the
  prototype is untouched. There is no failing outcome: the object is returned with the
  lines written, each of which is about a listed path. The test of line 150 reads the
  property through the prototype chain, so the warning that a path was not found is
  written for the listed paths that are neither a key nor an inherited property name.
\<close>

lemma removeFiles_map_and_messages:
  "own (fst (removeFiles files (Some ps))) = own files |` (- set ps)
   \<and> dom (own files) - dom (own (fst (removeFiles files (Some ps)))) = dom (own files) \<inter> set ps
   \<and> (\<forall>k. k \<notin> set ps \<longrightarrow> own (fst (removeFiles files (Some ps))) k = own files k)
   \<and> proto (fst (removeFiles files (Some ps))) = proto files
   \<and> set (snd (removeFiles files (Some ps)))
        \<subseteq> RemovedFile ` set ps \<union> FileNotFoundForRemoval ` set ps
   \<and> (\<forall>p \<in> set ps. \<not> truthyProperty files p
        \<longrightarrow> FileNotFoundForRemoval p \<in> set (snd (removeFiles files (Some ps))))
   \<and> removeFiles files (Some []) = (files, [])
   \<and> removeFiles files None = (files, [])"
proof (intro conjI)
  show own: "own (fst (removeFiles files (Some ps))) = own files |` (- set ps)"
    by (simp add: removeFiles_files)
  show "dom (own files) - dom (own (fst (removeFiles files (Some ps)))) = dom (own files) \<inter> set ps"
    unfolding own by auto
  show "\<forall>k. k \<notin> set ps \<longrightarrow> own (fst (removeFiles files (Some ps))) k = own files k"
    unfolding own by simp
  show "proto (fst (removeFiles files (Some ps))) = proto files"
    by (simp add: removeFiles_files)
  show "set (snd (removeFiles files (Some ps)))
          \<subseteq> RemovedFile ` set ps \<union> FileNotFoundForRemoval ` set ps"
    using removeEach_messages [of ps files "[]"] by (simp add: removeFiles_def)
  show "\<forall>p \<in> set ps. \<not> truthyProperty files p
          \<longrightarrow> FileNotFoundForRemoval p \<in> set (snd (removeFiles files (Some ps)))"
    using removeEach_warns [of _ ps files "[]"] by (auto simp: removeFiles_def)
  show "removeFiles files (Some []) = (files, [])"
    by (simp add: removeFiles_def)
  show "removeFiles files None = (files, [])"
    by (simp add: removeFiles_def)
qed

lemma deleteProperty_absent:
  assumes "own files k = None"
  shows "deleteProperty files k = files"
proof -
  from assms have "(own files)(k := None) = own files"
    by (simp add: fun_upd_idem_iff)
  then show ?thesis
    by (simp add: deleteProperty_def)
qed

text \<open>
  C3, at an input where the code departs from it. The map holds the keys
  \<^verbatim>\<open>README.md\<close> and \<^verbatim>\<open>logo.png\<close>; the path \<^verbatim>\<open>toString\<close> is not a key of it. Asked to
  remove \<^verbatim>\<open>toString\<close>, the File Remover returns the map unchanged, and writes that it
  removed the file instead of the notice that the path was not found: the test
  \<^verbatim>\<open>files[fileToRemove]\<close> of line 150 finds the function inherited from
  \<^verbatim>\<open>Object.prototype\<close>. For a listed path that is neither a key nor an inherited name,
  such as \<^verbatim>\<open>missing.txt\<close>, the map is returned unchanged with the notice, as C3 says.
\<close>

theorem removeFiles_reports_inherited_name_as_removed:
  "own exampleFiles (js ''toString'') = None
   \<and> removeFiles exampleFiles (Some [js ''toString''])
       = (exampleFiles, [RemovedFile (js ''toString'')])
   \<and> FileNotFoundForRemoval (js ''toString'')
       \<notin> set (snd (removeFiles exampleFiles (Some [js ''toString''])))
   \<and> own exampleFiles (js ''missing.txt'') = None
   \<and> removeFiles exampleFiles (Some [js ''missing.txt''])
       = (exampleFiles, [FileNotFoundForRemoval (js ''missing.txt'')])"
proof -
  have a: "own exampleFiles (js ''toString'') = None" "own exampleFiles (js ''missing.txt'') = None"
    by (simp_all add: exampleFiles_def js_def)
  have t: "truthyProperty exampleFiles (js ''toString'')"
    by (simp add: truthyProperty_def objectPrototypeKeys_def)
  have m: "\<not> truthyProperty exampleFiles (js ''missing.txt'')"
    by (simp add: truthyProperty_def exampleFiles_def objectPrototypeKeys_def js_def)
  from a t m show ?thesis
    by (simp add: removeFiles_def deleteProperty_absent)
qed

text \<open>
  C7. The File Remover is idempotent: removing the same list from its own result returns
  that result.
\<close>

theorem removeFiles_idempotent:
  "fst (removeFiles (fst (removeFiles files ps)) ps) = fst (removeFiles files ps)"
proof (cases ps)
  case None
  then show ?thesis by (simp add: removeFiles_def)
next
  case (Some l)
  then show ?thesis by (simp add: removeFiles_files)
qed

theorem removeFiles_idempotent_witness:
  "fst (removeFiles (fst (removeFiles exampleFiles (Some [js ''README.md'', js ''missing.txt''])))
          (Some [js ''README.md'', js ''missing.txt'']))
     = fst (removeFiles exampleFiles (Some [js ''README.md'', js ''missing.txt'']))
   \<and> own (fst (removeFiles exampleFiles (Some [js ''README.md'', js ''missing.txt''])))
          (js ''README.md'') = None"
  using removeFiles_idempotent [of exampleFiles "Some [js ''README.md'', js ''missing.txt'']"]
  by (simp add: removeFiles_files)

section \<open>Properties of the Command Runner\<close>

lemma runCommand_Closed:
  assumes "spawn rt (if win32 rt then command @ js ''.cmd'' else command) args workingDir
             (project w) = (Closed code out err, p)"
  shows "runCommand rt command args workingDir description w =
           (if code \<noteq> Some 0
            then (Inl (Error (description @ js '' failed with exit code '' @ numberToString code)),
                  w\<lparr>project := p,
                    trace := trace w @ [Spawn (if win32 rt then command @ js ''.cmd'' else command)
                                          args workingDir],
                    console := console w @ [CommandFailed description code out err]\<rparr>)
            else (Inr (),
                  w\<lparr>project := p,
                    trace := trace w @ [Spawn (if win32 rt then command @ js ''.cmd'' else command)
                                          args workingDir]\<rparr>))"
  using assms by (simp add: runCommand_def Let_def)

lemma runCommand_SpawnFailed:
  assumes "spawn rt (if win32 rt then command @ js ''.cmd'' else command) args workingDir
             (project w) = (SpawnFailed message code out err, p)"
  shows "runCommand rt command args workingDir description w =
           (Inl (Error (js ''Failed to run '' @ command @ js '': '' @ message)),
            w\<lparr>project := p,
              trace := trace w @ [Spawn (if win32 rt then command @ js ''.cmd'' else command)
                                    args workingDir],
              lateConsole :=
                lateConsole w
                  @ (if code \<noteq> Some 0 then [CommandFailed description code out err] else [])\<rparr>)"
  using assms by (simp add: runCommand_def Let_def)

lemma runCommand_trace:
  "trace (snd (runCommand rt command args workingDir description w)) =
     trace w @ [Spawn (if win32 rt then command @ js ''.cmd'' else command) args workingDir]"
proof (cases "spawn rt (if win32 rt then command @ js ''.cmd'' else command) args workingDir
                (project w)")
  case (Pair ended p)
  then show ?thesis
    by (cases ended) (simp_all add: runCommand_Closed runCommand_SpawnFailed)
qed

text \<open>
  C6, as the code has it. The Command Runner spawns the child once and runs nothing a
  second time. It resolves with no value exactly when the child closes with exit code 0.
  When the child closes with any other exit code it rejects with an \<open>Error\<close> whose message
  is the description, the words \<^verbatim>\<open>failed with exit code\<close> and the code; the captured
  stdout and stderr are written to the console and are not part of the error. When the
  child emits \<^verbatim>\<open>error\<close> before it closes, the Command Runner rejects with an \<open>Error\<close>
  whose message is \<^verbatim>\<open>Failed to run\<close>, the command and the cause, and writes nothing at
  that moment; the \<^verbatim>\<open>close\<close> that follows makes the handler write the description, the
  code and the captured streams to the console afterwards, unless the code is 0. Both
  errors are plain \<open>Error\<close>s, told apart by their messages only: the two messages differ
  provided the description does not begin with the letter F. The rejection is the result
  handed to the caller.
\<close>

theorem runCommand_settles_by_exit_code:
  assumes "spawn rt (if win32 rt then command @ js ''.cmd'' else command) args workingDir
             (project w) = (ended, p)"
  shows "trace (snd (runCommand rt command args workingDir description w)) =
           trace w @ [Spawn (if win32 rt then command @ js ''.cmd'' else command) args workingDir]
     \<and> (fst (runCommand rt command args workingDir description w) = Inr ()
          \<longleftrightarrow> (\<exists>out err. ended = Closed (Some 0) out err))
     \<and> (\<forall>code out err. ended = Closed code out err \<and> code \<noteq> Some 0 \<longrightarrow>
          fst (runCommand rt command args workingDir description w)
            = Inl (Error (description @ js '' failed with exit code '' @ numberToString code))
          \<and> console (snd (runCommand rt command args workingDir description w))
            = console w @ [CommandFailed description code out err]
          \<and> lateConsole (snd (runCommand rt command args workingDir description w))
            = lateConsole w)
     \<and> (\<forall>message code out err. ended = SpawnFailed message code out err \<longrightarrow>
          fst (runCommand rt command args workingDir description w)
            = Inl (Error (js ''Failed to run '' @ command @ js '': '' @ message))
          \<and> console (snd (runCommand rt command args workingDir description w)) = console w
          \<and> lateConsole (snd (runCommand rt command args workingDir description w))
            = lateConsole w
                @ (if code \<noteq> Some 0 then [CommandFailed description code out err] else []))
     \<and> (\<forall>code message. description \<noteq> [] \<and> hd description \<noteq> 70 \<longrightarrow>
          Error (description @ js '' failed with exit code '' @ numberToString code)
            \<noteq> Error (js ''Failed to run '' @ command @ js '': '' @ message))"
proof (intro conjI allI impI)
  show "trace (snd (runCommand rt command args workingDir description w)) =
          trace w @ [Spawn (if win32 rt then command @ js ''.cmd'' else command) args workingDir]"
    by (rule runCommand_trace)
  show "fst (runCommand rt command args workingDir description w) = Inr ()
          \<longleftrightarrow> (\<exists>out err. ended = Closed (Some 0) out err)"
    using assms by (cases ended) (auto simp: runCommand_Closed runCommand_SpawnFailed)
next
  fix code out err
  assume "ended = Closed code out err \<and> code \<noteq> Some 0"
  with assms show
    "fst (runCommand rt command args workingDir description w)
       = Inl (Error (description @ js '' failed with exit code '' @ numberToString code))"
    "console (snd (runCommand rt command args workingDir description w))
       = console w @ [CommandFailed description code out err]"
    "lateConsole (snd (runCommand rt command args workingDir description w)) = lateConsole w"
    by (simp_all add: runCommand_Closed)
next
  fix message code out err
  assume "ended = SpawnFailed message code out err"
  with assms have run: "runCommand rt command args workingDir description w =
           (Inl (Error (js ''Failed to run '' @ command @ js '': '' @ message)),
            w\<lparr>project := p,
              trace := trace w @ [Spawn (if win32 rt then command @ js ''.cmd'' else command)
                                    args workingDir],
              lateConsole :=
                lateConsole w
                  @ (if code \<noteq> Some 0 then [CommandFailed description code out err] else [])\<rparr>)"
    by (simp only: runCommand_SpawnFailed)
  show "fst (runCommand rt command args workingDir description w)
       = Inl (Error (js ''Failed to run '' @ command @ js '': '' @ message))"
    "console (snd (runCommand rt command args workingDir description w)) = console w"
    "lateConsole (snd (runCommand rt command args workingDir description w))
       = lateConsole w
           @ (if code \<noteq> Some 0 then [CommandFailed description code out err] else [])"
    unfolding run by simp_all
next
  fix code message
  assume d: "description \<noteq> [] \<and> hd description \<noteq> 70"
  then obtain c cs where "description = c # cs" "c \<noteq> 70"
    by (cases description) auto
  then show "Error (description @ js '' failed with exit code '' @ numberToString code)
               \<noteq> Error (js ''Failed to run '' @ command @ js '': '' @ message)"
    by (simp add: js_def)
qed

lemma numberToString_1: "numberToString (Some 1) = js ''1''"
  by (simp add: numberToString_def showNat.simps js_def)

lemma failingInstall_spawn:
  "spawn (failingInstall out)
     (if win32 (failingInstall out) then js ''npm'' @ js ''.cmd'' else js ''npm'')
     [js ''install''] (js ''/tmp/w/project'') (project exampleWorld)
   = (Closed (Some 1) out (js ''npm ERR''), None)"
  by (simp add: failingInstall_def exampleRuntime_def exampleWorld_def)

lemma unspawnable_spawn:
  "spawn unspawnable
     (if win32 unspawnable then js ''npm'' @ js ''.cmd'' else js ''npm'')
     [js ''install''] (js ''/tmp/w/project'') (project exampleWorld)
   = (SpawnFailed (js ''spawn /bin/sh ENOENT'') (Some (- 2)) [] [], None)"
  by (simp add: unspawnable_def exampleRuntime_def exampleWorld_def)

theorem runCommand_settles_by_exit_code_witness:
  "spawn (failingInstall (js ''first log''))
     (if win32 (failingInstall (js ''first log'')) then js ''npm'' @ js ''.cmd'' else js ''npm'')
     [js ''install''] (js ''/tmp/w/project'') (project exampleWorld)
     = (Closed (Some 1) (js ''first log'') (js ''npm ERR''), None)
   \<and> fst (runCommand (failingInstall (js ''first log'')) (js ''npm'') [js ''install'']
          (js ''/tmp/w/project'') (js ''Installing dependencies'') exampleWorld)
       = Inl (Error (js ''Installing dependencies failed with exit code 1''))
   \<and> console (snd (runCommand (failingInstall (js ''first log'')) (js ''npm'') [js ''install'']
          (js ''/tmp/w/project'') (js ''Installing dependencies'') exampleWorld))
       = [CommandFailed (js ''Installing dependencies'') (Some 1) (js ''first log'') (js ''npm ERR'')]
   \<and> trace (snd (runCommand (failingInstall (js ''first log'')) (js ''npm'') [js ''install'']
          (js ''/tmp/w/project'') (js ''Installing dependencies'') exampleWorld))
       = [Spawn (js ''npm'') [js ''install''] (js ''/tmp/w/project'')]
   \<and> spawn unspawnable
       (if win32 unspawnable then js ''npm'' @ js ''.cmd'' else js ''npm'')
       [js ''install''] (js ''/tmp/w/project'') (project exampleWorld)
       = (SpawnFailed (js ''spawn /bin/sh ENOENT'') (Some (- 2)) [] [], None)
   \<and> fst (runCommand unspawnable (js ''npm'') [js ''install''] (js ''/tmp/w/project'')
          (js ''Installing dependencies'') exampleWorld)
       = Inl (Error (js ''Failed to run npm: spawn /bin/sh ENOENT''))
   \<and> console (snd (runCommand unspawnable (js ''npm'') [js ''install''] (js ''/tmp/w/project'')
          (js ''Installing dependencies'') exampleWorld)) = []
   \<and> lateConsole (snd (runCommand unspawnable (js ''npm'') [js ''install'']
          (js ''/tmp/w/project'') (js ''Installing dependencies'') exampleWorld))
       = [CommandFailed (js ''Installing dependencies'') (Some (- 2)) [] []]
   \<and> js ''Installing dependencies'' \<noteq> []
   \<and> hd (js ''Installing dependencies'') \<noteq> 70
   \<and> Error (js ''Installing dependencies failed with exit code 1'')
       \<noteq> Error (js ''Failed to run npm: spawn /bin/sh ENOENT'')"
proof -
  note h = failingInstall_spawn [of "js ''first log''"]
  note t = runCommand_settles_by_exit_code [OF h, of "js ''Installing dependencies''"]
  have c: "Closed (Some 1) (js ''first log'') (js ''npm ERR'')
             = Closed (Some 1) (js ''first log'') (js ''npm ERR'') \<and> Some (1::int) \<noteq> Some 0"
    by simp
  note nz = t [THEN conjunct2, THEN conjunct2, THEN conjunct1, rule_format, OF c]
  note tr = t [THEN conjunct1]
  note u = runCommand_settles_by_exit_code [OF unspawnable_spawn, of "js ''Installing dependencies''"]
  note sf = u [THEN conjunct2, THEN conjunct2, THEN conjunct2, THEN conjunct1, rule_format, OF refl]
  have d: "js ''Installing dependencies'' \<noteq> [] \<and> hd (js ''Installing dependencies'') \<noteq> 70"
    by (simp add: js_def)
  note ne = t [THEN conjunct2, THEN conjunct2, THEN conjunct2, THEN conjunct2, rule_format, OF d,
      of "Some 1" "js ''spawn /bin/sh ENOENT''"]
  have w: "win32 (failingInstall (js ''first log'')) = False" "win32 unspawnable = False"
    by (simp_all add: failingInstall_def unspawnable_def exampleRuntime_def)
  have m: "js ''Installing dependencies'' @ js '' failed with exit code '' @ js ''1''
             = js ''Installing dependencies failed with exit code 1''"
    "js ''Failed to run '' @ js ''npm'' @ js '': '' @ js ''spawn /bin/sh ENOENT''
             = js ''Failed to run npm: spawn /bin/sh ENOENT''"
    by (simp_all add: js_def)
  have e: "console exampleWorld = []" "trace exampleWorld = []" "lateConsole exampleWorld = []"
    by (simp_all add: exampleWorld_def)
  have i: "Some (- 2 :: int) \<noteq> Some 0"
    by simp
  from nz tr sf ne d h unspawnable_spawn show ?thesis
    by (simp only: w m e i numberToString_1 if_False if_True append_Nil simp_thms)
qed

text \<open>
  Against C6 as it is stated: two runs of \<^verbatim>\<open>npm install\<close> that end with exit code 1
  and differ in what they wrote to stdout reject with one and the same error, so the error
  does not carry the captured streams.
\<close>

theorem runCommand_error_omits_streams:
  "fst (runCommand (failingInstall (js ''first log'')) (js ''npm'') [js ''install'']
          (js ''/tmp/w/project'') (js ''Installing dependencies'') exampleWorld)
     = Inl (Error (js ''Installing dependencies failed with exit code 1''))
   \<and> fst (runCommand (failingInstall (js ''second log'')) (js ''npm'') [js ''install'']
          (js ''/tmp/w/project'') (js ''Installing dependencies'') exampleWorld)
     = Inl (Error (js ''Installing dependencies failed with exit code 1''))"
  by (simp add: runCommand_Closed [OF failingInstall_spawn] numberToString_1)
    (simp add: js_def)

section \<open>Properties of the Directory Snapshotter\<close>

lemma readFileEntry_type: "type (readFileEntry rt name bytes) = Binary \<longleftrightarrow> isBinary name"
  by (simp add: readFileEntry_def)

lemma readFileEntry_binary:
  "isBinary name \<Longrightarrow> base64_decode (content (readFileEntry rt name bytes)) = Some bytes"
  by (simp add: readFileEntry_def base64_roundtrip)

lemma readFileEntry_text:
  "\<not> isBinary name \<Longrightarrow> readFileEntry rt name bytes = \<lparr>type = Text, content = utf8_decode rt bytes\<rparr>"
  by (simp add: readFileEntry_def)

lemma isBinary_iff_listedExtension: "isBinary name \<longleftrightarrow> listedExtension name"
  by (auto simp: isBinary_iff_extension listedExtension_def split: option.splits)

lemma fileAt_Cons:
  assumes "fileAt rt (Dir (Some items)) basePath k name bytes"
  shows "fileAt rt (Dir (Some (x # items))) basePath k name bytes"
  using assms
  by (cases rule: fileAt.cases) (auto intro: fileAt.here fileAt.below)

lemma own_setProperty:
  "own (setProperty files p v) k = Some e \<Longrightarrow> own files k = Some e \<or> (k = p \<and> e = v)"
  by (auto simp: setProperty_def split: if_splits)

lemma own_objectAssign:
  "own (objectAssign files sub) k = Some e \<Longrightarrow> own files k = Some e \<or> own sub k = Some e"
  by (auto simp: objectAssign_def map_add_def split: option.splits)

lemma fileAt_leaf:
  "\<not> fileAt rt Dangling basePath k name bytes"
  "\<not> fileAt rt (File c) basePath k name bytes"
  "\<not> fileAt rt (Dir None) basePath k name bytes"
  "\<not> fileAt rt (Dir (Some [])) basePath k name bytes"
  by (auto elim: fileAt.cases)

lemma fileAt_head:
  assumes "fileAt rt (Dir (Some ((n, x) # items))) basePath k name bytes"
  shows "(n = name \<and> x = File (Some bytes) \<and> k = relativePathOf rt basePath name)
       \<or> fileAt rt x (relativePathOf rt basePath n) k name bytes
       \<or> fileAt rt (Dir (Some items)) basePath k name bytes"
  using assms
  by (cases rule: fileAt.cases) (auto intro: fileAt.here fileAt.below)

lemma snapshot_entries:
  "readDirectoryRecursive rt n basePath = (Inr files, ms) \<Longrightarrow> own files k = Some e \<Longrightarrow>
     \<exists>d name bytes. n = Some d \<and> fileAt rt d basePath k name bytes \<and> e = readFileEntry rt name bytes"
  and
  "readItems rt items basePath acc = (Inr files, ms) \<Longrightarrow> own files k = Some e \<Longrightarrow>
     own (fst acc) k = Some e
     \<or> (\<exists>name bytes. fileAt rt (Dir (Some items)) basePath k name bytes
            \<and> e = readFileEntry rt name bytes)"
proof (induction rt n basePath and rt items basePath acc arbitrary: files ms k e and files ms k e
    rule: readDirectoryRecursive_readItems.induct)
  case (1 rt basePath)
  then show ?case by (auto simp: emptyObject_def)
next
  case (2 rt basePath)
  then show ?case by (auto simp: emptyObject_def)
next
  case (3 rt c basePath)
  then show ?case by simp
next
  case (4 rt basePath)
  then show ?case by simp
next
  case (5 rt items basePath)
  from "5.prems" have "readItems rt items basePath (emptyObject, []) = (Inr files, ms)"
    by simp
  from "5.IH" [OF this "5.prems"(2)] show ?case
    by (simp add: emptyObject_def)
next
  case (6 rt basePath files0 ms0)
  then show ?case by simp
next
  case (7 rt name d items basePath files0 ms0)
  from "7.prems"(1) obtain sub ms' where
    sub: "readDirectoryRecursive rt (Some (Dir d)) (relativePathOf rt basePath name) = (Inr sub, ms')"
    and rest: "readItems rt items basePath (objectAssign files0 sub, ms0 @ ms') = (Inr files, ms)"
    by (auto split: prod.splits sum.splits)
  from "7.IH"(2) [OF sub [symmetric] refl rest "7.prems"(2)]
  consider "own (objectAssign files0 sub) k = Some e"
    | name' bytes where "fileAt rt (Dir (Some items)) basePath k name' bytes"
        "e = readFileEntry rt name' bytes"
    by auto
  then show ?case
  proof cases
    case 1
    then consider "own files0 k = Some e" | "own sub k = Some e"
      using own_objectAssign by blast
    then show ?thesis
    proof cases
      case 1
      then show ?thesis by simp
    next
      case 2
      from "7.IH"(1) [OF sub 2] obtain name' bytes where
        "fileAt rt (Dir d) (relativePathOf rt basePath name) k name' bytes"
        "e = readFileEntry rt name' bytes"
        by auto
      moreover have "(name, Dir d) \<in> set ((name, Dir d) # items)" by simp
      ultimately have "fileAt rt (Dir (Some ((name, Dir d) # items))) basePath k name' bytes"
        using fileAt.below by blast
      with \<open>e = readFileEntry rt name' bytes\<close> show ?thesis by blast
    qed
  next
    case 2
    then show ?thesis using fileAt_Cons by blast
  qed
next
  case (8 rt name items basePath files0 ms0)
  from "8.prems"(1) have
    "readItems rt items basePath (files0, ms0 @ [CouldNotReadFile (relativePathOf rt basePath name)])
       = (Inr files, ms)"
    by simp
  from "8.IH" [OF this "8.prems"(2)] show ?case
    using fileAt_Cons by fastforce
next
  case (9 rt name c items basePath files0 ms0)
  show ?case
  proof (cases c)
    case None
    with "9.prems"(1) have
      "readItems rt items basePath (files0, ms0 @ [CouldNotReadFile (relativePathOf rt basePath name)])
         = (Inr files, ms)"
      by simp
    from "9.IH"(1) [OF None this "9.prems"(2)] show ?thesis
      using fileAt_Cons by fastforce
  next
    case (Some bytes)
    with "9.prems"(1) have
      "readItems rt items basePath
         (setProperty files0 (relativePathOf rt basePath name) (readFileEntry rt name bytes), ms0)
         = (Inr files, ms)"
      by simp
    from "9.IH"(2) [OF Some this "9.prems"(2)]
    consider "own (setProperty files0 (relativePathOf rt basePath name) (readFileEntry rt name bytes)) k
                = Some e"
      | name' bytes' where "fileAt rt (Dir (Some items)) basePath k name' bytes'"
          "e = readFileEntry rt name' bytes'"
      by auto
    then show ?thesis
    proof cases
      case 1
      then consider "own files0 k = Some e"
        | "k = relativePathOf rt basePath name" "e = readFileEntry rt name bytes"
        using own_setProperty by blast
      then show ?thesis
      proof cases
        case 1
        then show ?thesis by simp
      next
        case 2
        have "(name, File (Some bytes)) \<in> set ((name, File c) # items)"
          using Some by simp
        then have "fileAt rt (Dir (Some ((name, File c) # items))) basePath
                     (relativePathOf rt basePath name) name bytes"
          by (rule fileAt.here)
        with 2 show ?thesis by blast
      qed
    next
      case 2
      then show ?thesis using fileAt_Cons by blast
    qed
  qed
qed

lemma own_setProperty_kept:
  "own files k \<noteq> None \<Longrightarrow> own (setProperty files p v) k \<noteq> None"
  by (simp add: setProperty_def)

lemma own_setProperty_new:
  "p \<noteq> js ''__proto__'' \<Longrightarrow> own (setProperty files p v) p \<noteq> None"
  by (simp add: setProperty_def)

lemma own_objectAssign_kept:
  "own files k \<noteq> None \<or> own sub k \<noteq> None \<Longrightarrow> own (objectAssign files sub) k \<noteq> None"
  by (auto simp: objectAssign_def map_add_def split: option.splits)

lemma snapshot_keys:
  "readDirectoryRecursive rt n basePath = (Inr files, ms) \<Longrightarrow> n = Some d \<Longrightarrow>
     fileAt rt d basePath k name bytes \<Longrightarrow> k \<noteq> js ''__proto__'' \<Longrightarrow> own files k \<noteq> None"
  and
  "readItems rt items basePath acc = (Inr files, ms) \<Longrightarrow> k \<noteq> js ''__proto__'' \<Longrightarrow>
     own (fst acc) k \<noteq> None \<or> (\<exists>name bytes. fileAt rt (Dir (Some items)) basePath k name bytes) \<Longrightarrow>
     own files k \<noteq> None"
proof (induction rt n basePath and rt items basePath acc
    arbitrary: files ms k d name bytes and files ms k
    rule: readDirectoryRecursive_readItems.induct)
  case (1 rt basePath)
  from "1.prems"(2) show ?case by simp
next
  case (2 rt basePath)
  from "2.prems"(2,3) show ?case by (auto simp: fileAt_leaf)
next
  case (3 rt c basePath)
  from "3.prems"(1) show ?case by simp
next
  case (4 rt basePath)
  from "4.prems"(1) show ?case by simp
next
  case (5 rt items basePath)
  from "5.prems"(1) have run: "readItems rt items basePath (emptyObject, []) = (Inr files, ms)"
    by simp
  from "5.prems"(2,3) have "\<exists>name bytes. fileAt rt (Dir (Some items)) basePath k name bytes"
    by auto
  then show ?case
    using "5.IH" [OF run "5.prems"(4)] by simp
next
  case (6 rt basePath files0 ms0)
  then show ?case by (simp add: fileAt_leaf)
next
  case (7 rt name d items basePath files0 ms0)
  from "7.prems"(1) obtain sub ms' where
    sub: "readDirectoryRecursive rt (Some (Dir d)) (relativePathOf rt basePath name) = (Inr sub, ms')"
    and rest: "readItems rt items basePath (objectAssign files0 sub, ms0 @ ms') = (Inr files, ms)"
    by (auto split: prod.splits sum.splits)
  note step = "7.IH"(2) [OF sub [symmetric] refl rest "7.prems"(2)]
  from "7.prems"(3) consider "own files0 k \<noteq> None"
    | name' bytes' where "fileAt rt (Dir (Some ((name, Dir d) # items))) basePath k name' bytes'"
    by auto
  then show ?case
  proof cases
    case 1
    then have "own (objectAssign files0 sub) k \<noteq> None"
      by (simp add: own_objectAssign_kept)
    then show ?thesis using step by simp
  next
    case 2
    from fileAt_head [OF 2]
    consider "fileAt rt (Dir d) (relativePathOf rt basePath name) k name' bytes'"
      | "fileAt rt (Dir (Some items)) basePath k name' bytes'"
      by auto
    then show ?thesis
    proof cases
      case 1
      from "7.IH"(1) [OF sub refl 1 "7.prems"(2)] have "own sub k \<noteq> None" .
      then have "own (objectAssign files0 sub) k \<noteq> None"
        by (simp add: own_objectAssign_kept)
      then show ?thesis using step by simp
    next
      case 2
      then show ?thesis using step by auto
    qed
  qed
next
  case (8 rt name items basePath files0 ms0)
  from "8.prems"(1) have run:
    "readItems rt items basePath (files0, ms0 @ [CouldNotReadFile (relativePathOf rt basePath name)])
       = (Inr files, ms)"
    by simp
  note step = "8.IH" [OF run "8.prems"(2)]
  from "8.prems"(3) consider "own files0 k \<noteq> None"
    | name' bytes' where "fileAt rt (Dir (Some ((name, Dangling) # items))) basePath k name' bytes'"
    by auto
  then show ?case
  proof cases
    case 1
    then show ?thesis using step by simp
  next
    case 2
    from fileAt_head [OF 2] have "fileAt rt (Dir (Some items)) basePath k name' bytes'"
      by (auto simp: fileAt_leaf)
    then show ?thesis using step by auto
  qed
next
  case (9 rt name c items basePath files0 ms0)
  show ?case
  proof (cases c)
    case None
    with "9.prems"(1) have run:
      "readItems rt items basePath (files0, ms0 @ [CouldNotReadFile (relativePathOf rt basePath name)])
         = (Inr files, ms)"
      by simp
    note step = "9.IH"(1) [OF None run "9.prems"(2)]
    from "9.prems"(3) consider "own files0 k \<noteq> None"
      | name' bytes' where "fileAt rt (Dir (Some ((name, File c) # items))) basePath k name' bytes'"
      by auto
    then show ?thesis
    proof cases
      case 1
      then show ?thesis using step by simp
    next
      case 2
      from fileAt_head [OF 2] None have "fileAt rt (Dir (Some items)) basePath k name' bytes'"
        by (auto simp: fileAt_leaf)
      then show ?thesis using step by auto
    qed
  next
    case (Some bytes)
    with "9.prems"(1) have run:
      "readItems rt items basePath
         (setProperty files0 (relativePathOf rt basePath name) (readFileEntry rt name bytes), ms0)
         = (Inr files, ms)"
      by simp
    note step = "9.IH"(2) [OF Some run "9.prems"(2)]
    from "9.prems"(3) consider "own files0 k \<noteq> None"
      | name' bytes' where "fileAt rt (Dir (Some ((name, File c) # items))) basePath k name' bytes'"
      by auto
    then show ?thesis
    proof cases
      case 1
      then have "own (setProperty files0 (relativePathOf rt basePath name)
                   (readFileEntry rt name bytes)) k \<noteq> None"
        by (rule own_setProperty_kept)
      then show ?thesis using step by simp
    next
      case 2
      from fileAt_head [OF 2]
      consider "k = relativePathOf rt basePath name"
        | "fileAt rt (Dir (Some items)) basePath k name' bytes'"
        by (auto simp: fileAt_leaf)
      then show ?thesis
      proof cases
        case 1
        with "9.prems"(2) have "own (setProperty files0 (relativePathOf rt basePath name)
                   (readFileEntry rt name bytes)) k \<noteq> None"
          using own_setProperty_new by simp
        then show ?thesis using step by simp
      next
        case 2
        then show ?thesis using step by auto
      qed
    qed
  qed
qed

lemma fileAt_under:
  assumes "fileAt rt d basePath k name bytes" and "basePath \<noteq> []"
  shows "\<exists>rest. k = basePath @ pathSeparator rt # rest"
  using assms
proof (induction rule: fileAt.induct)
  case (here name bytes items rt basePath)
  then show ?case
    by (simp add: relativePathOf_def pathJoin_def)
next
  case (below d sub items rt basePath k name bytes)
  from below.prems have "relativePathOf rt basePath d \<noteq> []"
    by (simp add: relativePathOf_def pathJoin_def)
  from below.IH [OF this] obtain rest where
    "k = relativePathOf rt basePath d @ pathSeparator rt # rest" ..
  with below.prems show ?case
    by (simp add: relativePathOf_def pathJoin_def)
qed

lemma relativePathOf_not_empty: "name \<noteq> [] \<Longrightarrow> relativePathOf rt basePath name \<noteq> []"
  by (simp add: relativePathOf_def pathJoin_def)

lemma relativePathOf_inject:
  "relativePathOf rt basePath a = relativePathOf rt basePath b \<Longrightarrow> a = b"
  by (simp add: relativePathOf_def pathJoin_def split: if_splits)

lemma relativePathOf_below:
  "relativePathOf rt basePath a = relativePathOf rt basePath d @ s # rest \<Longrightarrow> a = d @ s # rest"
  by (simp add: relativePathOf_def pathJoin_def split: if_splits)

lemma first_component:
  assumes "xs @ s # r = ys @ s # r'" and "s \<notin> set xs" and "s \<notin> set ys"
  shows "xs = ys"
proof -
  have stop: "takeWhile (\<lambda>c. c \<noteq> s) (zs @ s # t) = zs" if "s \<notin> set zs" for zs t
    using that by (induction zs) auto
  have "xs = takeWhile (\<lambda>c. c \<noteq> s) (xs @ s # r)"
    using stop [OF assms(2), of r] by simp
  also have "\<dots> = takeWhile (\<lambda>c. c \<noteq> s) (ys @ s # r')"
    by (simp only: assms(1))
  also have "\<dots> = ys"
    by (rule stop [OF assms(3)])
  finally show ?thesis .
qed

lemma fileAt_item:
  assumes "fileAt rt (Dir (Some items)) basePath k name bytes"
    and "\<forall>(n, x) \<in> set items. n \<noteq> []"
  shows "((name, File (Some bytes)) \<in> set items \<and> k = relativePathOf rt basePath name)
       \<or> (\<exists>d sub rest. (d, sub) \<in> set items
             \<and> fileAt rt sub (relativePathOf rt basePath d) k name bytes
             \<and> k = relativePathOf rt basePath d @ pathSeparator rt # rest)"
  using assms(1)
proof (cases rule: fileAt.cases)
  case here
  then show ?thesis by simp
next
  case (below d sub)
  with assms(2) have "d \<noteq> []" by auto
  then have "relativePathOf rt basePath d \<noteq> []"
    by (rule relativePathOf_not_empty)
  with below(2) obtain rest where "k = relativePathOf rt basePath d @ pathSeparator rt # rest"
    using fileAt_under by blast
  with below show ?thesis by blast
qed

lemma wellFormed_items:
  assumes "wellFormed rt (Dir (Some items))"
  shows "distinct (map fst items)"
    and "\<forall>(n, x) \<in> set items. n \<noteq> []"
    and "(n, x) \<in> set items \<Longrightarrow> pathSeparator rt \<notin> set n"
    and "(n, x) \<in> set items \<Longrightarrow> wellFormed rt x"
  using assms by (auto simp: list_all_iff)

lemma fileAt_unique:
  assumes "fileAt rt dir basePath k name bytes" and "wellFormed rt dir"
    and "fileAt rt dir basePath k name' bytes'"
  shows "name' = name \<and> bytes' = bytes"
  using assms
proof (induction arbitrary: name' bytes' rule: fileAt.induct)
  case (here name bytes items rt basePath)
  note wf = wellFormed_items [OF here.prems(1)]
  from fileAt_item [OF here.prems(2) wf(2)] show ?case
  proof (elim disjE conjE exE)
    assume "(name', File (Some bytes')) \<in> set items"
      and "relativePathOf rt basePath name = relativePathOf rt basePath name'"
    then have "name = name'" and "(name, File (Some bytes')) \<in> set items"
      by (auto dest: relativePathOf_inject)
    with here.hyps wf(1) have "File (Some bytes) = File (Some bytes')"
      using eq_key_imp_eq_value by fastforce
    with \<open>name = name'\<close> show ?thesis by simp
  next
    fix d sub rest
    assume "(d, sub) \<in> set items"
      and "relativePathOf rt basePath name = relativePathOf rt basePath d @ pathSeparator rt # rest"
    then have "name = d @ pathSeparator rt # rest"
      by (auto dest: relativePathOf_below)
    with wf(3) [OF here.hyps] show ?thesis by simp
  qed
next
  case (below d sub items rt basePath k name bytes)
  note wf = wellFormed_items [OF below.prems(1)]
  from wf(2) below.hyps(1) have "d \<noteq> []" by auto
  then have "relativePathOf rt basePath d \<noteq> []"
    by (rule relativePathOf_not_empty)
  with below.hyps(2) obtain rest where
    k: "k = relativePathOf rt basePath d @ pathSeparator rt # rest"
    using fileAt_under by blast
  from fileAt_item [OF below.prems(2) wf(2)] show ?case
  proof (elim disjE conjE exE)
    assume mem: "(name', File (Some bytes')) \<in> set items"
      and "k = relativePathOf rt basePath name'"
    with k have "name' = d @ pathSeparator rt # rest"
      by (auto dest: relativePathOf_below)
    with wf(3) [OF mem] show ?thesis by simp
  next
    fix d' sub' rest'
    assume mem: "(d', sub') \<in> set items"
      and at: "fileAt rt sub' (relativePathOf rt basePath d') k name' bytes'"
      and k': "k = relativePathOf rt basePath d' @ pathSeparator rt # rest'"
    from k k' have "relativePathOf rt basePath d @ pathSeparator rt # rest
                   = relativePathOf rt basePath d' @ pathSeparator rt # rest'"
      by simp
    then have "d @ pathSeparator rt # rest = d' @ pathSeparator rt # rest'"
      by (simp add: relativePathOf_def pathJoin_def split: if_splits)
    then have "d = d'"
      using wf(3) [OF below.hyps(1)] wf(3) [OF mem] by (rule first_component)
    with mem below.hyps(1) wf(1) have "sub = sub'"
      using eq_key_imp_eq_value by fastforce
    with at \<open>d = d'\<close> have "fileAt rt sub (relativePathOf rt basePath d) k name' bytes'"
      by simp
    with below.IH [OF wf(4) [OF below.hyps(1)]] show ?thesis by simp
  qed
qed

lemma snapshot_entry_of_file:
  assumes "readDirectoryRecursive rt (Some dir) basePath = (Inr files, ms)"
    and "wellFormed rt dir"
    and "fileAt rt dir basePath k name bytes"
    and "k \<noteq> js ''__proto__''"
  shows "own files k = Some (readFileEntry rt name bytes)"
proof -
  from snapshot_keys(1) [OF assms(1) refl assms(3,4)] obtain e where e: "own files k = Some e"
    by auto
  from snapshot_entries(1) [OF assms(1) e] obtain name' bytes' where
    "fileAt rt dir basePath k name' bytes'" "e = readFileEntry rt name' bytes'"
    by auto
  with fileAt_unique [OF assms(3,2)] e show ?thesis
    by simp
qed

lemma fileAt_key:
  "fileAt rt d basePath k name bytes \<Longrightarrow> k = name \<or> (\<exists>p. k = p @ pathSeparator rt # name)"
proof (induction rule: fileAt.induct)
  case (here name bytes items rt basePath)
  then show ?case
    by (auto simp: relativePathOf_def pathJoin_def)
next
  case (below d sub items rt basePath k name bytes)
  then show ?case by simp
qed

lemma extension_under_directory:
  assumes "extension (p @ s # name) = Some y" and "s \<notin> set y" and "s \<noteq> 46"
  shows "extension name = Some y"
proof (cases "46 \<in> set name")
  case True
  then have "takeWhile (\<lambda>c. c \<noteq> 46) (rev name @ s # rev p) = takeWhile (\<lambda>c. c \<noteq> 46) (rev name)"
    by (intro takeWhile_append1 [of 46]) auto
  with assms(1) True show ?thesis
    by (auto simp: extension_def split: if_splits)
next
  case False
  with assms(3) have "takeWhile (\<lambda>c. c \<noteq> 46) (rev name @ s # rev p)
               = rev name @ s # takeWhile (\<lambda>c. c \<noteq> 46) (rev p)"
    by (subst takeWhile_append2) auto
  with assms(1) have "s \<in> set y"
    by (auto simp: extension_def split: if_splits)
  with assms(2) show ?thesis by simp
qed

lemma map_toLowerCase_plain:
  assumes "toLowerCase d = d" and "d \<notin> set (map toLowerCase y)"
  shows "d \<notin> set y"
proof
  assume "d \<in> set y"
  then have "toLowerCase d \<in> set (map toLowerCase y)" by simp
  with assms show False by simp
qed

lemma binaryExtensions_no_separator:
  "\<forall>e \<in> set binaryExtensions. 47 \<notin> set e \<and> 92 \<notin> set e"
  by (simp add: binaryExtensions_def js_def)

lemma pathSeparator_plain:
  "pathSeparator rt \<noteq> 46" "toLowerCase (pathSeparator rt) = pathSeparator rt"
  "e \<in> set binaryExtensions \<Longrightarrow> pathSeparator rt \<notin> set e"
  using binaryExtensions_no_separator
  by (auto simp: pathSeparator_def toLowerCase_def)

text \<open>
  C9. The classification does not depend on letter case: an entry of the snapshot whose
  path ends with a dot and an extension that, folded to lower case, is on the allow-list
  (such as \<^verbatim>\<open>LOGO.PNG\<close> or \<^verbatim>\<open>font.WOFF2\<close>) has the type \<open>Binary\<close>.
\<close>

theorem snapshot_extension_match_ignores_case:
  assumes "readDirectoryRecursive rt (Some dir) basePath = (Inr files, ms)"
    and "own files (stem @ js ''.'' @ y) = Some e"
    and "map toLowerCase y \<in> set binaryExtensions"
  shows "type e = Binary"
proof -
  define k where "k = stem @ js ''.'' @ y"
  have k: "k = stem @ 46 # y" by (simp add: k_def js_def)
  from assms(1,2) obtain name bytes where
    at: "fileAt rt dir basePath k name bytes" and e: "e = readFileEntry rt name bytes"
    unfolding k_def [symmetric] using snapshot_entries(1) by blast
  have l: "46 \<notin> set (map toLowerCase y)"
    using assms(3) by (rule binaryExtensions_plain(1))
  have r: "pathSeparator rt \<notin> set (map toLowerCase y)"
    using assms(3) by (rule pathSeparator_plain(3))
  have "toLowerCase 46 = 46"
    by (simp add: toLowerCase_def)
  then have dot: "46 \<notin> set y"
    using l by (rule map_toLowerCase_plain)
  have sep: "pathSeparator rt \<notin> set y"
    using pathSeparator_plain(2) r by (rule map_toLowerCase_plain)
  from dot have ext: "extension k = Some y"
    unfolding k by (rule extension_append_dot)
  from at have "k = name \<or> (\<exists>p. k = p @ pathSeparator rt # name)"
    by (rule fileAt_key)
  then have "extension name = Some y"
  proof
    assume "k = name"
    with ext show ?thesis by simp
  next
    assume "\<exists>p. k = p @ pathSeparator rt # name"
    then obtain p where "k = p @ pathSeparator rt # name" ..
    with ext have "extension (p @ pathSeparator rt # name) = Some y" by simp
    then show ?thesis using sep pathSeparator_plain(1) by (rule extension_under_directory)
  qed
  with assms(3) have "\<exists>x. extension name = Some x \<and> map toLowerCase x \<in> set binaryExtensions"
    by simp
  then have "isBinary name"
    by (simp only: isBinary_iff_extension)
  with e show ?thesis
    by (simp add: readFileEntry_type)
qed

lemma readFileEntry_classified:
  "(type (readFileEntry rt name bytes) = Binary \<longleftrightarrow> listedExtension name)
   \<and> (type (readFileEntry rt name bytes) = Binary
        \<longrightarrow> base64_decode (content (readFileEntry rt name bytes)) = Some bytes)
   \<and> (type (readFileEntry rt name bytes) \<noteq> Binary
        \<longrightarrow> type (readFileEntry rt name bytes) = Text
            \<and> content (readFileEntry rt name bytes) = utf8_decode rt bytes)"
  by (simp add: readFileEntry_type readFileEntry_binary readFileEntry_text
      isBinary_iff_listedExtension)

text \<open>
  C1, as the code has it. The tree is one a file system presents: within a directory the
  names are distinct, not empty and free of the separator. Every file of the tree that can
  be read has an entry in the snapshot under its relative path, the path \<^verbatim>\<open>__proto__\<close>
  apart, and every entry of the snapshot is the entry of such a file. The entry has the
  type \<open>Binary\<close> exactly when the extension of the file name (what follows its last dot),
  letters compared without regard to case, is one of png, jpg, jpeg, gif, ico, woff,
  woff2, ttf, eot. The content of a \<open>Binary\<close> entry decodes from base64 to the bytes of the
  file; every other entry has the type \<open>Text\<close> and its content is the bytes of the file
  put through the UTF-8 decoder of the runtime, whatever the bytes are.
\<close>

theorem snapshot_classifies_each_readable_file_by_extension:
  assumes "readDirectoryRecursive rt (Some dir) basePath = (Inr files, ms)"
    and "wellFormed rt dir"
  shows "(\<forall>k name bytes. fileAt rt dir basePath k name bytes \<and> k \<noteq> js ''__proto__'' \<longrightarrow>
            (\<exists>e. own files k = Some e
               \<and> (type e = Binary \<longleftrightarrow> listedExtension name)
               \<and> (type e = Binary \<longrightarrow> base64_decode (content e) = Some bytes)
               \<and> (type e \<noteq> Binary \<longrightarrow> type e = Text \<and> content e = utf8_decode rt bytes)))
       \<and> (\<forall>k e. own files k = Some e \<longrightarrow>
            (\<exists>name bytes. fileAt rt dir basePath k name bytes
               \<and> (type e = Binary \<longleftrightarrow> listedExtension name)
               \<and> (type e = Binary \<longrightarrow> base64_decode (content e) = Some bytes)
               \<and> (type e \<noteq> Binary \<longrightarrow> type e = Text \<and> content e = utf8_decode rt bytes)))"
proof (intro conjI allI impI)
  fix k name bytes
  assume "fileAt rt dir basePath k name bytes \<and> k \<noteq> js ''__proto__''"
  then have "own files k = Some (readFileEntry rt name bytes)"
    using snapshot_entry_of_file [OF assms] by simp
  then show "\<exists>e. own files k = Some e
               \<and> (type e = Binary \<longleftrightarrow> listedExtension name)
               \<and> (type e = Binary \<longrightarrow> base64_decode (content e) = Some bytes)
               \<and> (type e \<noteq> Binary \<longrightarrow> type e = Text \<and> content e = utf8_decode rt bytes)"
    using readFileEntry_classified [of rt name bytes] by simp
next
  fix k e
  assume "own files k = Some e"
  with assms(1) obtain name bytes where
    at: "fileAt rt dir basePath k name bytes" and e: "e = readFileEntry rt name bytes"
    using snapshot_entries(1) by blast
  show "\<exists>name bytes. fileAt rt dir basePath k name bytes
               \<and> (type e = Binary \<longleftrightarrow> listedExtension name)
               \<and> (type e = Binary \<longrightarrow> base64_decode (content e) = Some bytes)
               \<and> (type e \<noteq> Binary \<longrightarrow> type e = Text \<and> content e = utf8_decode rt bytes)"
    using at readFileEntry_classified [of rt name bytes] unfolding e by blast
qed

lemma exampleTree_snapshot:
  "readDirectoryRecursive exampleRuntime (Some exampleTree) [] = (Inr exampleSnapshot, [])"
  by (simp add: exampleTree_def exampleRuntime_def exampleSnapshot_def emptyObject_def
      relativePathOf_def pathJoin_def pathSeparator_def setProperty_def objectAssign_def readFileEntry_def
      isBinary_def binaryExtensions_def endsWithIgnoreCase_def canonicalize_def asciiBytes_def
      base64Char_def base64Alphabet_def base64Pad_def js_def)

lemma exampleTree_wellFormed: "wellFormed exampleRuntime exampleTree"
  by (simp add: exampleTree_def exampleRuntime_def pathSeparator_def js_def)

lemma exampleTree_files:
  "fileAt exampleRuntime exampleTree [] (js ''README.md'') (js ''README.md'') (asciiBytes ''hi'')"
  "fileAt exampleRuntime exampleTree [] (js ''assets/LOGO.PNG'') (js ''LOGO.PNG'') [137, 80, 78, 71]"
proof -
  have "fileAt exampleRuntime exampleTree [] (relativePathOf exampleRuntime [] (js ''README.md''))
          (js ''README.md'') (asciiBytes ''hi'')"
    unfolding exampleTree_def by (rule fileAt.here) simp
  then show "fileAt exampleRuntime exampleTree [] (js ''README.md'') (js ''README.md'')
               (asciiBytes ''hi'')"
    by (simp add: relativePathOf_def)
  have "fileAt exampleRuntime (Dir (Some [(js ''LOGO.PNG'', File (Some [137, 80, 78, 71]))]))
          (relativePathOf exampleRuntime [] (js ''assets''))
          (relativePathOf exampleRuntime (relativePathOf exampleRuntime [] (js ''assets''))
             (js ''LOGO.PNG''))
          (js ''LOGO.PNG'') [137, 80, 78, 71]"
    by (rule fileAt.here) simp
  moreover have
    "relativePathOf exampleRuntime (relativePathOf exampleRuntime [] (js ''assets'')) (js ''LOGO.PNG'')
       = js ''assets/LOGO.PNG''"
    by (simp add: relativePathOf_def pathJoin_def pathSeparator_def exampleRuntime_def js_def)
  ultimately have
    "fileAt exampleRuntime (Dir (Some [(js ''LOGO.PNG'', File (Some [137, 80, 78, 71]))]))
       (relativePathOf exampleRuntime [] (js ''assets'')) (js ''assets/LOGO.PNG'')
       (js ''LOGO.PNG'') [137, 80, 78, 71]"
    by simp
  then show "fileAt exampleRuntime exampleTree [] (js ''assets/LOGO.PNG'') (js ''LOGO.PNG'')
               [137, 80, 78, 71]"
    unfolding exampleTree_def by (rule fileAt.below [rotated]) simp
qed

lemma exampleTree_extensions:
  "extension (js ''LOGO.PNG'') = Some (js ''PNG'')"
  "extension (js ''README.md'') = Some (js ''md'')"
  by (simp_all add: extension_def js_def)

theorem snapshot_classifies_each_readable_file_by_extension_witness:
  "readDirectoryRecursive exampleRuntime (Some exampleTree) [] = (Inr exampleSnapshot, [])
   \<and> wellFormed exampleRuntime exampleTree
   \<and> fileAt exampleRuntime exampleTree [] (js ''assets/LOGO.PNG'') (js ''LOGO.PNG'') [137, 80, 78, 71]
   \<and> js ''assets/LOGO.PNG'' \<noteq> js ''__proto__''
   \<and> own exampleSnapshot (js ''assets/LOGO.PNG'')
        = Some \<lparr>type = Binary, content = js ''iVBORw==''\<rparr>
   \<and> listedExtension (js ''LOGO.PNG'')
   \<and> base64_decode (js ''iVBORw=='') = Some [137, 80, 78, 71]
   \<and> fileAt exampleRuntime exampleTree [] (js ''README.md'') (js ''README.md'') (asciiBytes ''hi'')
   \<and> js ''README.md'' \<noteq> js ''__proto__''
   \<and> own exampleSnapshot (js ''README.md'') = Some \<lparr>type = Text, content = js ''hi''\<rparr>
   \<and> \<not> listedExtension (js ''README.md'')
   \<and> js ''hi'' = utf8_decode exampleRuntime (asciiBytes ''hi'')
   \<and> (\<exists>name bytes. fileAt exampleRuntime exampleTree [] (js ''README.md'') name bytes
         \<and> \<not> listedExtension name)"
proof -
  note t = snapshot_classifies_each_readable_file_by_extension
    [OF exampleTree_snapshot exampleTree_wellFormed]
  have logo: "own exampleSnapshot (js ''assets/LOGO.PNG'')
                = Some \<lparr>type = Binary, content = js ''iVBORw==''\<rparr>"
    and readme: "own exampleSnapshot (js ''README.md'') = Some \<lparr>type = Text, content = js ''hi''\<rparr>"
    by (simp_all add: exampleSnapshot_def js_def)
  have ne: "js ''assets/LOGO.PNG'' \<noteq> js ''__proto__''" "js ''README.md'' \<noteq> js ''__proto__''"
    by (simp_all add: js_def)
  from t [THEN conjunct1, rule_format, OF conjI, OF exampleTree_files(2) ne(1)]
  have a: "listedExtension (js ''LOGO.PNG'')"
    "base64_decode (js ''iVBORw=='') = Some [137, 80, 78, 71]"
    unfolding logo by simp_all
  from t [THEN conjunct1, rule_format, OF conjI, OF exampleTree_files(1) ne(2)]
  have b: "\<not> listedExtension (js ''README.md'')"
    "js ''hi'' = utf8_decode exampleRuntime (asciiBytes ''hi'')"
    unfolding readme by simp_all
  from t [THEN conjunct2, rule_format, OF readme]
  have c: "\<exists>name bytes. fileAt exampleRuntime exampleTree [] (js ''README.md'') name bytes
         \<and> \<not> listedExtension name"
    by auto
  from a b c show ?thesis
    using exampleTree_snapshot exampleTree_wellFormed exampleTree_files ne logo readme
    by simp
qed

text \<open>
  Against C1 as it is stated: the file \<^verbatim>\<open>assets/LOGO.PNG\<close> has the extension
  \<^verbatim>\<open>PNG\<close>, which is none of png, jpg, jpeg, gif, ico, woff, woff2, ttf, eot, and its
  entry has the type \<open>Binary\<close>.
\<close>

theorem snapshot_binary_entry_with_unlisted_extension:
  "readDirectoryRecursive exampleRuntime (Some exampleTree) [] = (Inr exampleSnapshot, [])
   \<and> fileAt exampleRuntime exampleTree [] (js ''assets/LOGO.PNG'') (js ''LOGO.PNG'') [137, 80, 78, 71]
   \<and> own exampleSnapshot (js ''assets/LOGO.PNG'')
        = Some \<lparr>type = Binary, content = js ''iVBORw==''\<rparr>
   \<and> extension (js ''LOGO.PNG'') = Some (js ''PNG'')
   \<and> js ''PNG'' \<notin> set binaryExtensions"
proof -
  have "own exampleSnapshot (js ''assets/LOGO.PNG'')
          = Some \<lparr>type = Binary, content = js ''iVBORw==''\<rparr>"
    by (simp add: exampleSnapshot_def js_def)
  moreover have "js ''PNG'' \<notin> set binaryExtensions"
    by (simp add: binaryExtensions_def js_def)
  ultimately show ?thesis
    using exampleTree_snapshot exampleTree_files(2) exampleTree_extensions(1) by simp
qed

text \<open>
  A file at the root of the tree whose name is \<^verbatim>\<open>__proto__\<close> gets no entry: the
  assignment of line 115 or 121 sets the prototype of the object \<^verbatim>\<open>files\<close> and creates
  no property.
\<close>

lemma snapshot_of_file_named_proto:
  "readDirectoryRecursive rt (Some (Dir (Some [(js ''__proto__'', File (Some bytes))]))) [] =
     (Inr \<lparr>own = Map.empty, proto = Some (readFileEntry rt (js ''__proto__'') bytes)\<rparr>, [])"
  by (simp add: relativePathOf_def setProperty_def emptyObject_def)

theorem snapshot_extension_match_ignores_case_witness:
  "readDirectoryRecursive exampleRuntime (Some exampleTree) [] = (Inr exampleSnapshot, [])
   \<and> own exampleSnapshot (js ''assets/LOGO'' @ js ''.'' @ js ''PNG'')
        = Some \<lparr>type = Binary, content = js ''iVBORw==''\<rparr>
   \<and> map toLowerCase (js ''PNG'') \<in> set binaryExtensions
   \<and> type \<lparr>type = Binary, content = js ''iVBORw==''\<rparr> = Binary"
proof -
  have listed: "map toLowerCase (js ''PNG'') \<in> set binaryExtensions"
    by (simp add: binaryExtensions_def toLowerCase_def js_def)
  have entry: "own exampleSnapshot (js ''assets/LOGO'' @ js ''.'' @ js ''PNG'')
                 = Some \<lparr>type = Binary, content = js ''iVBORw==''\<rparr>"
    by (simp add: exampleSnapshot_def js_def)
  from snapshot_extension_match_ignores_case [OF exampleTree_snapshot entry listed]
  show ?thesis
    using exampleTree_snapshot entry listed by simp
qed

section \<open>Properties of the Manifest Merger\<close>

text \<open>
  A manifest that is a link whose target is missing: \<^verbatim>\<open>fs.existsSync\<close> is false of it,
  and the merger writes its warning and returns.
\<close>

lemma updatePackageJson_dangling_manifest:
  assumes "project w = Some (Dir (Some items))"
    and "map_of items (js ''package.json'') = Some Dangling"
  shows "updatePackageJson rt projectPath deps w
           = (Inr (), w\<lparr>console := console w @ [PackageJsonNotFound]\<rparr>)"
  using assms by (simp add: updatePackageJson_def lookupEntry_def)

lemma map_of_putEntry: "map_of (putEntry name n items) = (map_of items)(name \<mapsto> n)"
  by (induction items) (auto simp: fun_eq_iff)

lemma group_keys_differ: "js ''dependencies'' \<noteq> js ''devDependencies''"
  by (simp add: js_def)

lemma writeFileSync_entry:
  assumes "lookupEntry (project w) name = Some (File c)" and "\<not> writeFileSyncFails rt"
  shows "fst (writeFileSync rt projectPath name data w) = Inr ()"
    and "lookupEntry (project (snd (writeFileSync rt projectPath name data w))) name
           = Some (File (Some (utf8_encode rt data)))"
    and "trace (snd (writeFileSync rt projectPath name data w))
           = trace w @ [WriteFile (pathJoin rt projectPath name) data]"
  using assms
  by (auto simp: writeFileSync_def lookupEntry_def map_of_putEntry Let_def
      split: option.splits node.splits)

text \<open>The manifest that is written when the existing one parses to an object.\<close>

lemma updatePackageJson_object:
  fixes deps :: dependencyGroups and m :: "jsstring \<rightharpoonup> json"
  assumes "lookupEntry (project w) (js ''package.json'') = Some (File (Some bytes))"
    and "json_parse rt (utf8_decode rt bytes) = Some (JObj m)"
  defines "m1 \<equiv> (case (case npm deps of None \<Rightarrow> None | Some g \<Rightarrow> dependencies g) of
                    None \<Rightarrow> m
                  | Some inc \<Rightarrow> m(js ''dependencies'' \<mapsto> JObj (spread (m (js ''dependencies'')) ++ inc)))"
  defines "m2 \<equiv> (case (case npm deps of None \<Rightarrow> None | Some g \<Rightarrow> devDependencies g) of
                    None \<Rightarrow> m1
                  | Some inc \<Rightarrow>
                      m1(js ''devDependencies'' \<mapsto> JObj (spread (m1 (js ''devDependencies'')) ++ inc)))"
  shows "updatePackageJson rt projectPath deps w
           = writeFileSync rt projectPath (js ''package.json'') (json_stringify rt (JObj m2)) w"
  using assms(1,2) unfolding m1_def m2_def
  by (simp add: updatePackageJson_def readFileSync_utf8_def mergeGroup_def split: option.splits)


lemma merged_groups:
  fixes deps :: dependencyGroups and m :: "jsstring \<rightharpoonup> json"
  defines "m1 \<equiv> (case (case npm deps of None \<Rightarrow> None | Some g \<Rightarrow> dependencies g) of
                    None \<Rightarrow> m
                  | Some inc \<Rightarrow> m(js ''dependencies'' \<mapsto> JObj (spread (m (js ''dependencies'')) ++ inc)))"
  defines "m2 \<equiv> (case (case npm deps of None \<Rightarrow> None | Some g \<Rightarrow> devDependencies g) of
                    None \<Rightarrow> m1
                  | Some inc \<Rightarrow>
                      m1(js ''devDependencies'' \<mapsto> JObj (spread (m1 (js ''devDependencies'')) ++ inc)))"
  shows "spread (m2 (js ''dependencies''))
           = spread (m (js ''dependencies'')) ++ incomingGroup deps dependencies"
    and "spread (m2 (js ''devDependencies''))
           = spread (m (js ''devDependencies'')) ++ incomingGroup deps devDependencies"
    and "key \<noteq> js ''dependencies'' \<Longrightarrow> key \<noteq> js ''devDependencies'' \<Longrightarrow> m2 key = m key"
proof -
  have ne: "js ''dependencies'' \<noteq> js ''devDependencies''"
    by (rule group_keys_differ)
  have d1: "spread (m1 (js ''dependencies''))
              = spread (m (js ''dependencies'')) ++ incomingGroup deps dependencies"
    by (simp add: m1_def incomingGroup_def split: option.splits)
  have v1: "m1 (js ''devDependencies'') = m (js ''devDependencies'')"
    using ne by (simp add: m1_def split: option.splits)
  have "m2 (js ''dependencies'') = m1 (js ''dependencies'')"
    using ne by (simp add: m2_def split: option.splits)
  with d1 show "spread (m2 (js ''dependencies''))
           = spread (m (js ''dependencies'')) ++ incomingGroup deps dependencies"
    by simp
  show "spread (m2 (js ''devDependencies''))
           = spread (m (js ''devDependencies'')) ++ incomingGroup deps devDependencies"
    by (simp add: m2_def v1 incomingGroup_def split: option.splits)
  show "key \<noteq> js ''dependencies'' \<Longrightarrow> key \<noteq> js ''devDependencies'' \<Longrightarrow> m2 key = m key"
    by (simp add: m1_def m2_def split: option.splits)
qed

text \<open>
  C2. When the manifest exists and parses to an object, the Manifest Merger writes back a
  manifest whose \<^verbatim>\<open>dependencies\<close> object is the union of the group it had and the
  incoming group, and likewise for \<^verbatim>\<open>devDependencies\<close>: a key of the incoming group has
  the incoming value, every other key keeps the value it had, and the other members of
  the manifest are untouched. (An absent group counts as empty.)
\<close>

theorem updatePackageJson_merges_dependency_groups:
  fixes deps :: dependencyGroups
  assumes "lookupEntry (project w) (js ''package.json'') = Some (File (Some bytes))"
    and "json_parse rt (utf8_decode rt bytes) = Some (JObj m)"
    and "\<not> writeFileSyncFails rt"
  shows "\<exists>m'.
      fst (updatePackageJson rt projectPath deps w) = Inr ()
      \<and> lookupEntry (project (snd (updatePackageJson rt projectPath deps w))) (js ''package.json'')
          = Some (File (Some (utf8_encode rt (json_stringify rt (JObj m')))))
      \<and> spread (m' (js ''dependencies''))
          = spread (m (js ''dependencies'')) ++ incomingGroup deps dependencies
      \<and> spread (m' (js ''devDependencies''))
          = spread (m (js ''devDependencies'')) ++ incomingGroup deps devDependencies
      \<and> (\<forall>key v. incomingGroup deps dependencies key = Some v
            \<longrightarrow> spread (m' (js ''dependencies'')) key = Some v)
      \<and> (\<forall>key. incomingGroup deps dependencies key = None
            \<longrightarrow> spread (m' (js ''dependencies'')) key = spread (m (js ''dependencies'')) key)
      \<and> (\<forall>key v. incomingGroup deps devDependencies key = Some v
            \<longrightarrow> spread (m' (js ''devDependencies'')) key = Some v)
      \<and> (\<forall>key. incomingGroup deps devDependencies key = None
            \<longrightarrow> spread (m' (js ''devDependencies'')) key = spread (m (js ''devDependencies'')) key)
      \<and> (\<forall>key. key \<noteq> js ''dependencies'' \<and> key \<noteq> js ''devDependencies'' \<longrightarrow> m' key = m key)"
proof -
  define m1 where "m1 = (case (case npm deps of None \<Rightarrow> None | Some g \<Rightarrow> dependencies g) of
                    None \<Rightarrow> m
                  | Some inc \<Rightarrow> m(js ''dependencies'' \<mapsto> JObj (spread (m (js ''dependencies'')) ++ inc)))"
  define m2 where "m2 = (case (case npm deps of None \<Rightarrow> None | Some g \<Rightarrow> devDependencies g) of
                    None \<Rightarrow> m1
                  | Some inc \<Rightarrow>
                      m1(js ''devDependencies'' \<mapsto> JObj (spread (m1 (js ''devDependencies'')) ++ inc)))"
  have run: "updatePackageJson rt projectPath deps w
           = writeFileSync rt projectPath (js ''package.json'') (json_stringify rt (JObj m2)) w"
    unfolding m2_def m1_def using assms(1,2) by (rule updatePackageJson_object)
  have d: "spread (m2 (js ''dependencies''))
           = spread (m (js ''dependencies'')) ++ incomingGroup deps dependencies"
    unfolding m2_def m1_def by (rule merged_groups(1))
  have v: "spread (m2 (js ''devDependencies''))
           = spread (m (js ''devDependencies'')) ++ incomingGroup deps devDependencies"
    unfolding m2_def m1_def by (rule merged_groups(2))
  have rest: "\<forall>key. key \<noteq> js ''dependencies'' \<and> key \<noteq> js ''devDependencies'' \<longrightarrow> m2 key = m key"
    unfolding m2_def m1_def using merged_groups(3) by blast
  have "fst (updatePackageJson rt projectPath deps w) = Inr ()"
    unfolding run using assms(1,3) by (rule writeFileSync_entry(1))
  moreover have
    "lookupEntry (project (snd (updatePackageJson rt projectPath deps w))) (js ''package.json'')
       = Some (File (Some (utf8_encode rt (json_stringify rt (JObj m2)))))"
    unfolding run using assms(1,3) by (rule writeFileSync_entry(2))
  moreover have "\<forall>key v. incomingGroup deps dependencies key = Some v
            \<longrightarrow> spread (m2 (js ''dependencies'')) key = Some v"
    unfolding d by simp
  moreover have "\<forall>key. incomingGroup deps dependencies key = None
            \<longrightarrow> spread (m2 (js ''dependencies'')) key = spread (m (js ''dependencies'')) key"
    unfolding d by (simp add: map_add_def)
  moreover have "\<forall>key v. incomingGroup deps devDependencies key = Some v
            \<longrightarrow> spread (m2 (js ''devDependencies'')) key = Some v"
    unfolding v by simp
  moreover have "\<forall>key. incomingGroup deps devDependencies key = None
            \<longrightarrow> spread (m2 (js ''devDependencies'')) key = spread (m (js ''devDependencies'')) key"
    unfolding v by (simp add: map_add_def)
  ultimately show ?thesis
    using d v rest by (intro exI [of _ m2]) (simp only: simp_thms)
qed

lemma exampleGenerated_manifest:
  "lookupEntry (project exampleGenerated) (js ''package.json'')
     = Some (File (Some (asciiBytes exampleManifest)))"
  by (simp add: exampleGenerated_def exampleProject_def lookupEntry_def js_def)

lemma exampleRuntime_parses_manifest:
  "json_parse exampleRuntime (utf8_decode exampleRuntime (asciiBytes exampleManifest))
     = Some (JObj exampleManifestObject)"
  by (simp add: exampleRuntime_def exampleParse_def asciiBytes_def exampleManifest_def js_def)

lemma exampleRuntime_writes: "\<not> writeFileSyncFails exampleRuntime"
  by (simp add: exampleRuntime_def)

theorem updatePackageJson_merges_dependency_groups_witness:
  "lookupEntry (project exampleGenerated) (js ''package.json'')
     = Some (File (Some (asciiBytes exampleManifest)))
   \<and> json_parse exampleRuntime (utf8_decode exampleRuntime (asciiBytes exampleManifest))
       = Some (JObj exampleManifestObject)
   \<and> (\<exists>m'. fst (updatePackageJson exampleRuntime (js ''/tmp/w/project'') exampleDependencies
                    exampleGenerated) = Inr ()
          \<and> lookupEntry (project (snd (updatePackageJson exampleRuntime (js ''/tmp/w/project'')
                    exampleDependencies exampleGenerated))) (js ''package.json'')
              = Some (File (Some (utf8_encode exampleRuntime
                                    (json_stringify exampleRuntime (JObj m')))))
          \<and> spread (m' (js ''dependencies''))
              = [js ''a'' \<mapsto> JStr (js ''1.0.0''), js ''b'' \<mapsto> JStr (js ''2.0.0'')])"
proof -
  have old: "spread (exampleManifestObject (js ''dependencies'')) = [js ''b'' \<mapsto> JStr (js ''2.0.0'')]"
    by (simp add: exampleManifestObject_def)
  have new: "incomingGroup exampleDependencies dependencies = [js ''a'' \<mapsto> JStr (js ''1.0.0'')]"
    by (simp add: incomingGroup_def exampleDependencies_def)
  have union: "[js ''b'' \<mapsto> JStr (js ''2.0.0'')] ++ [js ''a'' \<mapsto> JStr (js ''1.0.0'')]
                 = [js ''a'' \<mapsto> JStr (js ''1.0.0''), js ''b'' \<mapsto> JStr (js ''2.0.0'')]"
    by (rule ext) (simp add: js_def)
  from updatePackageJson_merges_dependency_groups
    [OF exampleGenerated_manifest exampleRuntime_parses_manifest exampleRuntime_writes,
      of "js ''/tmp/w/project''" exampleDependencies]
  obtain m' where
    "fst (updatePackageJson exampleRuntime (js ''/tmp/w/project'') exampleDependencies
            exampleGenerated) = Inr ()"
    "lookupEntry (project (snd (updatePackageJson exampleRuntime (js ''/tmp/w/project'')
            exampleDependencies exampleGenerated))) (js ''package.json'')
       = Some (File (Some (utf8_encode exampleRuntime (json_stringify exampleRuntime (JObj m')))))"
    "spread (m' (js ''dependencies''))
       = spread (exampleManifestObject (js ''dependencies''))
           ++ incomingGroup exampleDependencies dependencies"
    by blast
  then show ?thesis
    using exampleGenerated_manifest exampleRuntime_parses_manifest
    unfolding old new union by blast
qed

section \<open>Properties of the Scaffold Orchestrator\<close>

lemma updatePackageJson_malformed:
  assumes "lookupEntry (project w) (js ''package.json'') = Some (File (Some bytes))"
    and "json_parse rt (utf8_decode rt bytes) = None"
  shows "updatePackageJson rt projectPath deps w = (Inl SyntaxError, w)"
  using assms by (simp add: updatePackageJson_def readFileSync_utf8_def)

lemma scaffold_created:
  assumes "mkdtempSync rt = Some tempDir"
  shows "scaffold rt config ctx w =
           (fst (scaffoldTry rt config tempDir (viteTemplate (fieldValues ctx))
                   (w\<lparr>tempDirExists := True, project := None, trace := trace w @ [Mkdtemp]\<rparr>)),
            scaffoldFinally rt tempDir
              (snd (scaffoldTry rt config tempDir (viteTemplate (fieldValues ctx))
                      (w\<lparr>tempDirExists := True, project := None, trace := trace w @ [Mkdtemp]\<rparr>))))"
  using assms by (simp add: scaffold_def Let_def split: prod.splits)

lemma scaffoldTry_merge_fails:
  assumes "runViteCreate rt tempDir (js ''project'') template w0 = (Inr (), w1)"
    and "updatePackageJson rt (pathJoin rt tempDir (js ''project''))
           (case moduleDependencies config of None \<Rightarrow> noDependencies | Some d \<Rightarrow> d) w1
         = (Inl e, w2)"
  shows "scaffoldTry rt config tempDir template w0 = (Inl e, w2)"
  using assms by (simp add: scaffoldTry_def)

lemma scaffoldFinally_trace: "trace (scaffoldFinally rt tempDir w) = trace w @ [RmSync tempDir]"
  by (simp add: scaffoldFinally_def Let_def)

text \<open>
  C5. Suppose the workspace was created, the generator succeeded and left a manifest that
  can be read but is not JSON. Then the Manifest Merger raises the parse error and leaves
  the world as it found it: no write is made and the manifest on disk is unchanged. The
  scaffold run ends with that error: after the merger nothing runs but the removal of the
  workspace.
\<close>

theorem malformed_manifest_aborts_the_run:
  assumes "mkdtempSync rt = Some tempDir"
    and "runViteCreate rt tempDir (js ''project'') (viteTemplate (fieldValues ctx))
           (w\<lparr>tempDirExists := True, project := None, trace := trace w @ [Mkdtemp]\<rparr>)
         = (Inr (), w1)"
    and "lookupEntry (project w1) (js ''package.json'') = Some (File (Some bytes))"
    and "json_parse rt (utf8_decode rt bytes) = None"
  shows "updatePackageJson rt (pathJoin rt tempDir (js ''project''))
             (case moduleDependencies config of None \<Rightarrow> noDependencies | Some d \<Rightarrow> d) w1
           = (Inl SyntaxError, w1)
     \<and> scaffold rt config ctx w = (Inl SyntaxError, scaffoldFinally rt tempDir w1)
     \<and> trace (snd (scaffold rt config ctx w)) = trace w1 @ [RmSync tempDir]"
proof -
  have merge: "updatePackageJson rt (pathJoin rt tempDir (js ''project''))
             (case moduleDependencies config of None \<Rightarrow> noDependencies | Some d \<Rightarrow> d) w1
           = (Inl SyntaxError, w1)"
    using assms(3,4) by (rule updatePackageJson_malformed)
  have "scaffoldTry rt config tempDir (viteTemplate (fieldValues ctx))
           (w\<lparr>tempDirExists := True, project := None, trace := trace w @ [Mkdtemp]\<rparr>)
          = (Inl SyntaxError, w1)"
    using assms(2) merge by (rule scaffoldTry_merge_fails)
  then have run: "scaffold rt config ctx w = (Inl SyntaxError, scaffoldFinally rt tempDir w1)"
    by (simp add: scaffold_created [OF assms(1)])
  show ?thesis
    using merge run by (simp add: scaffoldFinally_trace)
qed

lemma exampleContext_template: "viteTemplate (fieldValues exampleContext) = js ''react-ts''"
  by (simp add: viteTemplate_def exampleContext_def)

lemma brokenRuntime_created: "mkdtempSync brokenRuntime = Some (js ''/tmp/genesis3-vite-a1b2c3'')"
  by (simp add: brokenRuntime_def exampleRuntime_def)

lemma brokenRuntime_generates:
  "runViteCreate brokenRuntime (js ''/tmp/genesis3-vite-a1b2c3'') (js ''project'')
     (viteTemplate (fieldValues exampleContext))
     (exampleWorld\<lparr>tempDirExists := True, project := None, trace := trace exampleWorld @ [Mkdtemp]\<rparr>)
   = (Inr (), brokenGenerated)"
  by (simp add: exampleContext_template runViteCreate_def runCommand_def brokenRuntime_def
      exampleRuntime_def exampleWorld_def brokenGenerated_def)

lemma brokenGenerated_manifest:
  "lookupEntry (project brokenGenerated) (js ''package.json'')
     = Some (File (Some (asciiBytes ''{'')))"
  by (simp add: brokenGenerated_def brokenProject_def lookupEntry_def)

lemma brokenRuntime_rejects_manifest:
  "json_parse brokenRuntime (utf8_decode brokenRuntime (asciiBytes ''{'')) = None"
  by (simp add: brokenRuntime_def exampleRuntime_def exampleParse_def asciiBytes_def
      exampleManifest_def js_def)

theorem malformed_manifest_aborts_the_run_witness:
  "mkdtempSync brokenRuntime = Some (js ''/tmp/genesis3-vite-a1b2c3'')
   \<and> lookupEntry (project brokenGenerated) (js ''package.json'')
       = Some (File (Some (asciiBytes ''{'')))
   \<and> json_parse brokenRuntime (utf8_decode brokenRuntime (asciiBytes ''{'')) = None
   \<and> fst (scaffold brokenRuntime exampleConfig exampleContext exampleWorld) = Inl SyntaxError
   \<and> trace (snd (scaffold brokenRuntime exampleConfig exampleContext exampleWorld))
       = [Mkdtemp,
          Spawn (js ''npm'')
            [js ''create'', js ''vite@latest'', js ''project'', js ''--'', js ''--template'',
             js ''react-ts'']
            (js ''/tmp/genesis3-vite-a1b2c3''),
          RmSync (js ''/tmp/genesis3-vite-a1b2c3'')]"
proof -
  note t = malformed_manifest_aborts_the_run
    [OF brokenRuntime_created brokenRuntime_generates brokenGenerated_manifest
      brokenRuntime_rejects_manifest, of exampleConfig]
  from t have "scaffold brokenRuntime exampleConfig exampleContext exampleWorld
      = (Inl SyntaxError, scaffoldFinally brokenRuntime (js ''/tmp/genesis3-vite-a1b2c3'') brokenGenerated)"
    by (rule conjunct2 [THEN conjunct1])
  moreover have "trace brokenGenerated @ [RmSync (js ''/tmp/genesis3-vite-a1b2c3'')]
       = [Mkdtemp,
          Spawn (js ''npm'')
            [js ''create'', js ''vite@latest'', js ''project'', js ''--'', js ''--template'',
             js ''react-ts'']
            (js ''/tmp/genesis3-vite-a1b2c3''),
          RmSync (js ''/tmp/genesis3-vite-a1b2c3'')]"
    by (simp add: brokenGenerated_def)
  ultimately show ?thesis
    using brokenRuntime_created brokenGenerated_manifest brokenRuntime_rejects_manifest
    by (simp add: scaffoldFinally_trace)
qed

lemma runCommand_traceD:
  assumes "runCommand rt command args workingDir description w = (r, w')"
  shows "trace w' = trace w @ [Spawn (if win32 rt then command @ js ''.cmd'' else command) args workingDir]"
  using runCommand_trace [of rt command args workingDir description w] assms by simp

lemma writeFileSync_traceD:
  assumes "writeFileSync rt projectPath name data w = (r, w')"
  shows "trace w' = trace w @ [WriteFile (pathJoin rt projectPath name) data]"
  using assms
  by (auto simp: writeFileSync_def Let_def split: if_splits option.splits node.splits)

lemma updatePackageJson_traceD:
  assumes "updatePackageJson rt projectPath deps w = (r, w')"
  shows "\<exists>t. trace w' = trace w @ t"
  using assms
  by (auto simp: updatePackageJson_def split: option.splits sum.splits dest: writeFileSync_traceD)

lemma scaffoldTry_trace:
  "\<exists>rest. trace (snd (scaffoldTry rt config tempDir template w0)) =
     trace w0 @ Spawn (if win32 rt then js ''npm'' @ js ''.cmd'' else js ''npm'')
                  [js ''create'', js ''vite@latest'', js ''project'', js ''--'', js ''--template'',
                   template] tempDir # rest"
proof -
  obtain r1 w1 where gen: "runViteCreate rt tempDir (js ''project'') template w0 = (r1, w1)"
    by (cases "runViteCreate rt tempDir (js ''project'') template w0")
  then have t1: "trace w1 = trace w0 @ [Spawn (if win32 rt then js ''npm'' @ js ''.cmd'' else js ''npm'')
                  [js ''create'', js ''vite@latest'', js ''project'', js ''--'', js ''--template'',
                   template] tempDir]"
    unfolding runViteCreate_def by (rule runCommand_traceD)
  have "\<exists>t. trace (snd (scaffoldTry rt config tempDir template w0)) = trace w1 @ t"
  proof (cases r1)
    case (Inl e)
    with gen show ?thesis by (simp add: scaffoldTry_def)
  next
    case (Inr u)
    obtain r2 w2 where merge: "updatePackageJson rt (pathJoin rt tempDir (js ''project''))
           (case moduleDependencies config of None \<Rightarrow> noDependencies | Some d \<Rightarrow> d) w1 = (r2, w2)"
      by (cases "updatePackageJson rt (pathJoin rt tempDir (js ''project''))
           (case moduleDependencies config of None \<Rightarrow> noDependencies | Some d \<Rightarrow> d) w1")
    then obtain t2 where t2: "trace w2 = trace w1 @ t2"
      using updatePackageJson_traceD by blast
    show ?thesis
    proof (cases r2)
      case (Inl e)
      with gen Inr merge t2 show ?thesis by (simp add: scaffoldTry_def)
    next
      case (Inr u')
      with gen \<open>r1 = Inr u\<close> merge t2 show ?thesis
        by (auto simp: scaffoldTry_def Let_def
            split: prod.splits sum.splits dest!: runCommand_traceD)
    qed
  qed
  with t1 show ?thesis by auto
qed

lemma viteTemplate_field:
  "viteTemplate (fieldValues ctx) =
     (if useTypeScriptField ctx = Some (JBool False) then js ''react'' else js ''react-ts'')"
  by (simp add: viteTemplate_def useTypeScriptField_def split: option.splits)

lemma templates_differ: "js ''react'' \<noteq> js ''react-ts''"
  by (simp add: js_def)

lemma scaffold_invokes_generator:
  assumes "mkdtempSync rt = Some tempDir"
  shows "\<exists>rest. trace (snd (scaffold rt config ctx w)) =
     trace w @ Mkdtemp #
       Spawn (if win32 rt then js ''npm'' @ js ''.cmd'' else js ''npm'')
         [js ''create'', js ''vite@latest'', js ''project'', js ''--'', js ''--template'',
          viteTemplate (fieldValues ctx)] tempDir # rest"
proof -
  obtain rest where
    "trace (snd (scaffoldTry rt config tempDir (viteTemplate (fieldValues ctx))
                   (w\<lparr>tempDirExists := True, project := None, trace := trace w @ [Mkdtemp]\<rparr>))) =
       trace (w\<lparr>tempDirExists := True, project := None, trace := trace w @ [Mkdtemp]\<rparr>)
         @ Spawn (if win32 rt then js ''npm'' @ js ''.cmd'' else js ''npm'')
             [js ''create'', js ''vite@latest'', js ''project'', js ''--'', js ''--template'',
              viteTemplate (fieldValues ctx)] tempDir # rest"
    using scaffoldTry_trace by blast
  then have "trace (snd (scaffold rt config ctx w)) =
     trace w @ Mkdtemp #
       Spawn (if win32 rt then js ''npm'' @ js ''.cmd'' else js ''npm'')
         [js ''create'', js ''vite@latest'', js ''project'', js ''--'', js ''--template'',
          viteTemplate (fieldValues ctx)] tempDir # (rest @ [RmSync tempDir])"
    by (simp add: scaffold_created [OF assms] scaffoldFinally_trace)
  then show ?thesis by blast
qed

text \<open>
  C8. Once the workspace is created, the first command that scaffold runs is the
  generator, \<^verbatim>\<open>npm create vite@latest project -- --template T\<close> in the workspace, and
  \<open>T\<close> is \<^verbatim>\<open>react\<close> when the value of the field \<^verbatim>\<open>useTypeScript\<close> is \<^verbatim>\<open>false\<close>
  and \<^verbatim>\<open>react-ts\<close> otherwise, in particular when the field is absent.
\<close>

theorem scaffold_selects_template_by_useTypeScript:
  assumes "mkdtempSync rt = Some tempDir"
  shows "\<exists>rest. trace (snd (scaffold rt config ctx w)) =
     trace w @ Mkdtemp #
       Spawn (if win32 rt then js ''npm'' @ js ''.cmd'' else js ''npm'')
         [js ''create'', js ''vite@latest'', js ''project'', js ''--'', js ''--template'',
          if useTypeScriptField ctx = Some (JBool False) then js ''react'' else js ''react-ts'']
         tempDir # rest"
  using scaffold_invokes_generator [OF assms, of config ctx w]
  by (simp only: viteTemplate_field)

text \<open>
  C10. The template handed to the generator is \<^verbatim>\<open>react\<close> exactly when the value of
  the field \<^verbatim>\<open>useTypeScript\<close> is the boolean \<^verbatim>\<open>false\<close>. Every other value, among them
  an absent field, \<^verbatim>\<open>null\<close>, \<^verbatim>\<open>0\<close> and the string \<^verbatim>\<open>false\<close>, gives
  \<^verbatim>\<open>react-ts\<close>.
\<close>

theorem only_boolean_false_selects_plain_template:
  assumes "mkdtempSync rt = Some tempDir"
  shows "\<exists>template rest.
      trace (snd (scaffold rt config ctx w)) =
        trace w @ Mkdtemp #
          Spawn (if win32 rt then js ''npm'' @ js ''.cmd'' else js ''npm'')
            [js ''create'', js ''vite@latest'', js ''project'', js ''--'', js ''--template'',
             template] tempDir # rest
      \<and> (template = js ''react'') = (useTypeScriptField ctx = Some (JBool False))
      \<and> (template = js ''react-ts'') = (useTypeScriptField ctx \<noteq> Some (JBool False))
      \<and> (useTypeScriptField ctx \<in> {None, Some JNull, Some (JNum 0), Some (JStr (js ''false''))}
           \<longrightarrow> template = js ''react-ts'')"
proof -
  obtain rest where
    "trace (snd (scaffold rt config ctx w)) =
        trace w @ Mkdtemp #
          Spawn (if win32 rt then js ''npm'' @ js ''.cmd'' else js ''npm'')
            [js ''create'', js ''vite@latest'', js ''project'', js ''--'', js ''--template'',
             viteTemplate (fieldValues ctx)] tempDir # rest"
    using scaffold_invokes_generator [OF assms] by blast
  moreover have "(viteTemplate (fieldValues ctx) = js ''react'')
                   = (useTypeScriptField ctx = Some (JBool False))"
    using templates_differ by (simp add: viteTemplate_field)
  moreover have "(viteTemplate (fieldValues ctx) = js ''react-ts'')
                   = (useTypeScriptField ctx \<noteq> Some (JBool False))"
    using templates_differ by (simp add: viteTemplate_field)
  moreover have
    "useTypeScriptField ctx \<in> {None, Some JNull, Some (JNum 0), Some (JStr (js ''false''))}
       \<longrightarrow> viteTemplate (fieldValues ctx) = js ''react-ts''"
    by (auto simp: viteTemplate_field)
  ultimately show ?thesis by blast
qed

lemma exampleRuntime_created:
  "mkdtempSync exampleRuntime = Some (js ''/tmp/genesis3-vite-a1b2c3'')"
  by (simp add: exampleRuntime_def)

lemma exampleRuntime_posix: "win32 exampleRuntime = False"
  by (simp add: exampleRuntime_def)

lemma exampleWorld_trace: "trace exampleWorld = []"
  by (simp add: exampleWorld_def)

lemma plainContext_field: "useTypeScriptField plainContext = Some (JBool False)"
  by (simp add: useTypeScriptField_def plainContext_def)

lemma stringContext_field: "useTypeScriptField stringContext = Some (JStr (js ''false''))"
  by (simp add: useTypeScriptField_def stringContext_def)

theorem scaffold_selects_template_by_useTypeScript_witness:
  "mkdtempSync exampleRuntime = Some (js ''/tmp/genesis3-vite-a1b2c3'')
   \<and> useTypeScriptField plainContext = Some (JBool False)
   \<and> (\<exists>rest. trace (snd (scaffold exampleRuntime exampleConfig plainContext exampleWorld)) =
         Mkdtemp #
           Spawn (js ''npm'')
             [js ''create'', js ''vite@latest'', js ''project'', js ''--'', js ''--template'',
              js ''react'']
             (js ''/tmp/genesis3-vite-a1b2c3'') # rest)"
  using scaffold_selects_template_by_useTypeScript
    [OF exampleRuntime_created, of exampleConfig plainContext exampleWorld]
  by (simp add: exampleRuntime_created exampleRuntime_posix exampleWorld_trace plainContext_field)

theorem only_boolean_false_selects_plain_template_witness:
  "mkdtempSync exampleRuntime = Some (js ''/tmp/genesis3-vite-a1b2c3'')
   \<and> useTypeScriptField stringContext = Some (JStr (js ''false''))
   \<and> (\<exists>rest. trace (snd (scaffold exampleRuntime exampleConfig stringContext exampleWorld)) =
         Mkdtemp #
           Spawn (js ''npm'')
             [js ''create'', js ''vite@latest'', js ''project'', js ''--'', js ''--template'',
              js ''react-ts'']
             (js ''/tmp/genesis3-vite-a1b2c3'') # rest)"
proof -
  from only_boolean_false_selects_plain_template
    [OF exampleRuntime_created, of exampleConfig stringContext exampleWorld]
  obtain template rest where
    tr: "trace (snd (scaffold exampleRuntime exampleConfig stringContext exampleWorld)) =
        trace exampleWorld @ Mkdtemp #
          Spawn (if win32 exampleRuntime then js ''npm'' @ js ''.cmd'' else js ''npm'')
            [js ''create'', js ''vite@latest'', js ''project'', js ''--'', js ''--template'',
             template] (js ''/tmp/genesis3-vite-a1b2c3'') # rest"
    and other: "useTypeScriptField stringContext
                  \<in> {None, Some JNull, Some (JNum 0), Some (JStr (js ''false''))}
                \<longrightarrow> template = js ''react-ts''"
    by blast
  from other have "template = js ''react-ts''"
    by (simp add: stringContext_field)
  with tr show ?thesis
    by (simp add: exampleRuntime_created exampleRuntime_posix exampleWorld_trace stringContext_field)
qed

text \<open>Only the removal of the workspace looks at whether that removal fails.\<close>

lemma runCommand_rmSyncFails:
  "runCommand (rt\<lparr>rmSyncFails := b\<rparr>) command args workingDir description w
     = runCommand rt command args workingDir description w"
  by (simp add: runCommand_def)

lemma pathJoin_rmSyncFails: "pathJoin (rt\<lparr>rmSyncFails := b\<rparr>) = pathJoin rt"
  by (simp add: fun_eq_iff pathJoin_def pathSeparator_def)

lemma writeFileSync_rmSyncFails:
  "writeFileSync (rt\<lparr>rmSyncFails := b\<rparr>) projectPath name data w
     = writeFileSync rt projectPath name data w"
  by (simp add: writeFileSync_def pathJoin_rmSyncFails Let_def split: option.splits node.splits)

lemma updatePackageJson_rmSyncFails:
  "updatePackageJson (rt\<lparr>rmSyncFails := b\<rparr>) projectPath deps w
     = updatePackageJson rt projectPath deps w"
  by (simp add: updatePackageJson_def readFileSync_utf8_def writeFileSync_rmSyncFails
      split: option.splits node.splits sum.splits)

lemma readFileEntry_rmSyncFails:
  "readFileEntry (rt\<lparr>rmSyncFails := b\<rparr>) name bytes = readFileEntry rt name bytes"
  by (simp add: readFileEntry_def)

lemma relativePathOf_rmSyncFails:
  "relativePathOf (rt\<lparr>rmSyncFails := b\<rparr>) = relativePathOf rt"
  by (simp add: fun_eq_iff relativePathOf_def pathJoin_rmSyncFails)

lemma readDirectoryRecursive_rmSyncFails:
  "readDirectoryRecursive (rt\<lparr>rmSyncFails := b\<rparr>) n basePath = readDirectoryRecursive rt n basePath"
  "readItems (rt\<lparr>rmSyncFails := b\<rparr>) items basePath acc = readItems rt items basePath acc"
  by (induction rt n basePath and rt items basePath acc
      rule: readDirectoryRecursive_readItems.induct)
    (simp_all add: readFileEntry_rmSyncFails relativePathOf_rmSyncFails
      split: option.splits prod.splits sum.splits)

lemma scaffoldTry_rmSyncFails:
  "scaffoldTry (rt\<lparr>rmSyncFails := b\<rparr>) config tempDir template w
     = scaffoldTry rt config tempDir template w"
  by (simp add: scaffoldTry_def runViteCreate_def runCommand_rmSyncFails
      updatePackageJson_rmSyncFails readDirectoryRecursive_rmSyncFails isTestMode_def
      pathJoin_rmSyncFails
      cong: prod.case_cong sum.case_cong option.case_cong if_cong)

text \<open>
  C4, as the code has it. In every run in which the temporary workspace was created,
  whatever the outcome of the steps that follow, the removal of the workspace is the last
  thing scaffold does before it returns. The result of the run is the result of those
  steps: it is the same whether the removal fails or not. A removal that fails writes a
  warning; one that succeeds leaves no workspace behind. (When the creation of the
  workspace itself fails, that error reaches the caller and no removal is attempted.)
\<close>

theorem workspace_is_removed_on_every_exit:
  assumes "mkdtempSync rt = Some tempDir"
  shows "(\<exists>before. trace (snd (scaffold rt config ctx w)) = before @ [RmSync tempDir])
     \<and> fst (scaffold rt config ctx w)
         = fst (scaffoldTry rt config tempDir (viteTemplate (fieldValues ctx))
                  (w\<lparr>tempDirExists := True, project := None, trace := trace w @ [Mkdtemp]\<rparr>))
     \<and> fst (scaffold (rt\<lparr>rmSyncFails := True\<rparr>) config ctx w)
         = fst (scaffold (rt\<lparr>rmSyncFails := False\<rparr>) config ctx w)
     \<and> (rmSyncFails rt \<longrightarrow>
          (\<exists>lines. console (snd (scaffold rt config ctx w)) = lines @ [CouldNotCleanUp tempDir]))
     \<and> (\<not> rmSyncFails rt \<longrightarrow> \<not> tempDirExists (snd (scaffold rt config ctx w)))"
proof (intro conjI impI)
  show "\<exists>before. trace (snd (scaffold rt config ctx w)) = before @ [RmSync tempDir]"
    by (simp add: scaffold_created [OF assms] scaffoldFinally_trace)
  show "fst (scaffold rt config ctx w)
         = fst (scaffoldTry rt config tempDir (viteTemplate (fieldValues ctx))
                  (w\<lparr>tempDirExists := True, project := None, trace := trace w @ [Mkdtemp]\<rparr>))"
    by (simp add: scaffold_created [OF assms])
  have "mkdtempSync (rt\<lparr>rmSyncFails := True\<rparr>) = Some tempDir"
    and "mkdtempSync (rt\<lparr>rmSyncFails := False\<rparr>) = Some tempDir"
    using assms by simp_all
  then show "fst (scaffold (rt\<lparr>rmSyncFails := True\<rparr>) config ctx w)
         = fst (scaffold (rt\<lparr>rmSyncFails := False\<rparr>) config ctx w)"
    by (simp add: scaffold_created scaffoldTry_rmSyncFails)
next
  assume "rmSyncFails rt"
  then show "\<exists>lines. console (snd (scaffold rt config ctx w)) = lines @ [CouldNotCleanUp tempDir]"
    by (simp add: scaffold_created [OF assms] scaffoldFinally_def Let_def)
next
  assume "\<not> rmSyncFails rt"
  then show "\<not> tempDirExists (snd (scaffold rt config ctx w))"
    by (simp add: scaffold_created [OF assms] scaffoldFinally_def Let_def)
qed

text \<open>
  Against C4 as it is stated: a run in which the temporary workspace cannot be created
  ends with a fatal error, and the only call it has made is the failed creation. No
  removal is executed.
\<close>

theorem failed_workspace_creation_skips_removal:
  "scaffold (exampleRuntime\<lparr>mkdtempSync := None\<rparr>) exampleConfig exampleContext exampleWorld
     = (Inl SystemError, exampleWorld\<lparr>trace := [Mkdtemp]\<rparr>)"
  by (simp add: scaffold_def exampleRuntime_def exampleWorld_def)

theorem workspace_is_removed_on_every_exit_witness:
  "mkdtempSync (brokenRuntime\<lparr>rmSyncFails := True\<rparr>) = Some (js ''/tmp/genesis3-vite-a1b2c3'')
   \<and> rmSyncFails (brokenRuntime\<lparr>rmSyncFails := True\<rparr>)
   \<and> (\<exists>before. trace (snd (scaffold (brokenRuntime\<lparr>rmSyncFails := True\<rparr>) exampleConfig
                                 exampleContext exampleWorld))
         = before @ [RmSync (js ''/tmp/genesis3-vite-a1b2c3'')])
   \<and> (\<exists>lines. console (snd (scaffold (brokenRuntime\<lparr>rmSyncFails := True\<rparr>) exampleConfig
                                 exampleContext exampleWorld))
         = lines @ [CouldNotCleanUp (js ''/tmp/genesis3-vite-a1b2c3'')])
   \<and> fst (scaffold (brokenRuntime\<lparr>rmSyncFails := True\<rparr>) exampleConfig exampleContext exampleWorld)
       = Inl SyntaxError"
proof -
  have created: "mkdtempSync (brokenRuntime\<lparr>rmSyncFails := True\<rparr>)
                   = Some (js ''/tmp/genesis3-vite-a1b2c3'')"
    by (simp add: brokenRuntime_created)
  have fails: "rmSyncFails (brokenRuntime\<lparr>rmSyncFails := True\<rparr>)"
    by simp
  note t = workspace_is_removed_on_every_exit [OF created, of exampleConfig exampleContext exampleWorld]
  have "scaffoldTry (brokenRuntime\<lparr>rmSyncFails := True\<rparr>) exampleConfig
          (js ''/tmp/genesis3-vite-a1b2c3'') (viteTemplate (fieldValues exampleContext))
          (exampleWorld\<lparr>tempDirExists := True, project := None,
             trace := trace exampleWorld @ [Mkdtemp]\<rparr>)
        = (Inl SyntaxError, brokenGenerated)"
    unfolding scaffoldTry_rmSyncFails
    using brokenRuntime_generates
      updatePackageJson_malformed [OF brokenGenerated_manifest brokenRuntime_rejects_manifest]
    by (rule scaffoldTry_merge_fails)
  with t have "fst (scaffold (brokenRuntime\<lparr>rmSyncFails := True\<rparr>) exampleConfig exampleContext
                    exampleWorld) = Inl SyntaxError"
    by simp
  with t created fails show ?thesis
    by (simp only: simp_thms)
qed

end
